theory Spec2Isabelle
  imports Main
begin

section \<open>JavaScript strings and values\<close>

text \<open>
  A JavaScript string is modelled as the \<^typ>\<open>string\<close> of the bytes of its UTF-8 encoding,
  which is how the literals stand in the source files; an ASCII character is one byte, and
  no byte of another character is an ASCII byte.

  \<open>toLowerCase\<close> maps the letters A-Z and leaves every other byte as it is. The source uses
  it, and the flag \<^verbatim>\<open>i\<close> of a regular expression, only to look for the ASCII texts
  \<^verbatim>\<open>.pdf\<close> and \<^verbatim>\<open>failed to fetch\<close>; no other character is lower-cased to a
  character of these texts, so the tests decide as the Unicode mapping does.
  \<^verbatim>\<open>toUpperCase\<close>, whose result is shown, depends on the Unicode tables of the
  JavaScript runtime and is a parameter of the model (\<open>builtins\<close> below).
\<close>

definition lower_letters :: string where
  "lower_letters = ''abcdefghijklmnopqrstuvwxyz''"

definition upper_letters :: string where
  "upper_letters = ''ABCDEFGHIJKLMNOPQRSTUVWXYZ''"

definition toLowerChar :: "char \<Rightarrow> char" where
  "toLowerChar c = (case map_of (zip upper_letters lower_letters) c of Some l \<Rightarrow> l | None \<Rightarrow> c)"

definition toLowerCase :: "string \<Rightarrow> string" where
  "toLowerCase s = map toLowerChar s"

definition endsWith :: "string \<Rightarrow> string \<Rightarrow> bool" where
  "endsWith s suf = (length suf \<le> length s \<and> drop (length s - length suf) s = suf)"

text \<open>\<^verbatim>\<open>s.replace(/_/g, " ")\<close>: every underscore becomes a space.\<close>

definition replace_underscores :: "string \<Rightarrow> string" where
  "replace_underscores s = map (\<lambda>c. if c = CHR ''_'' then CHR '' '' else c) s"

text \<open>
  What \<^verbatim>\<open>trim\<close> removes from both ends: the white space and the line terminators of
  JavaScript, each in its UTF-8 encoding. These are U+0009 to U+000D, U+0020, U+00A0,
  U+1680, U+2000 to U+200A, U+2028, U+2029, U+202F, U+205F, U+3000 and U+FEFF.
\<close>

definition white_space :: "string list" where
  "white_space =
     [[CHR 0x09], [CHR 0x0A], [CHR 0x0B], [CHR 0x0C], [CHR 0x0D], [CHR 0x20],
      [CHR 0xC2, CHR 0xA0],
      [CHR 0xE1, CHR 0x9A, CHR 0x80],
      [CHR 0xE2, CHR 0x80, CHR 0x80], [CHR 0xE2, CHR 0x80, CHR 0x81],
      [CHR 0xE2, CHR 0x80, CHR 0x82], [CHR 0xE2, CHR 0x80, CHR 0x83],
      [CHR 0xE2, CHR 0x80, CHR 0x84], [CHR 0xE2, CHR 0x80, CHR 0x85],
      [CHR 0xE2, CHR 0x80, CHR 0x86], [CHR 0xE2, CHR 0x80, CHR 0x87],
      [CHR 0xE2, CHR 0x80, CHR 0x88], [CHR 0xE2, CHR 0x80, CHR 0x89],
      [CHR 0xE2, CHR 0x80, CHR 0x8A],
      [CHR 0xE2, CHR 0x80, CHR 0xA8], [CHR 0xE2, CHR 0x80, CHR 0xA9],
      [CHR 0xE2, CHR 0x80, CHR 0xAF],
      [CHR 0xE2, CHR 0x81, CHR 0x9F],
      [CHR 0xE3, CHR 0x80, CHR 0x80],
      [CHR 0xEF, CHR 0xBB, CHR 0xBF]]"

text \<open>\<open>strip_front ws s\<close>: \<open>s\<close> without the members of \<open>ws\<close> that it starts with.\<close>

function strip_front :: "string list \<Rightarrow> string \<Rightarrow> string" where
  "strip_front ws s =
     (case find (\<lambda>w. w \<noteq> [] \<and> take (length w) s = w) ws of
        None \<Rightarrow> s
      | Some w \<Rightarrow> strip_front ws (drop (length w) s))"
  by pat_completeness auto
termination
proof (relation "measure (\<lambda>(ws, s). length s)")
  show "wf (measure (\<lambda>(ws, s). length s))" by simp
next
  fix ws :: "string list" and s w :: string
  assume "find (\<lambda>w. w \<noteq> [] \<and> take (length w) s = w) ws = Some w"
  then have w: "w \<noteq> []" and t: "take (length w) s = w"
    by (auto simp: find_Some_iff)
  from t have "length (take (length w) s) = length w" by simp
  then have "length w \<le> length s" by (simp add: min_def split: if_splits)
  with w show "((ws, drop (length w) s), (ws, s)) \<in> measure (\<lambda>(ws, s). length s)"
    by (cases w) auto
qed

declare strip_front.simps [simp del]

definition trimStart :: "string \<Rightarrow> string" where
  "trimStart s = strip_front white_space s"

definition trimEnd :: "string \<Rightarrow> string" where
  "trimEnd s = rev (strip_front (map rev white_space) (rev s))"

definition trim :: "string \<Rightarrow> string" where
  "trim s = trimEnd (trimStart s)"

fun join :: "string \<Rightarrow> string list \<Rightarrow> string" where
  "join sep [] = []"
| "join sep [x] = x"
| "join sep (x # y # ys) = x @ sep @ join sep (y # ys)"

text \<open>
  The value \<^verbatim>\<open>JSON.parse\<close> returns. A number carries the text that JavaScript prints
  for it. A property that is absent reads as \<^verbatim>\<open>undefined\<close>, which is \<^term>\<open>None\<close>.
\<close>

datatype json =
    JNull
  | JBool bool
  | JNum string
  | JStr string
  | JArr "json list"
  | JObj "(string \<times> json) list"

text \<open>What is thrown: an \<^verbatim>\<open>Error\<close> object with its name and message, or another value.\<close>

datatype thrown = JsError (err_name: string) (message: string) | NonError

definition TypeError :: thrown where
  "TypeError = JsError ''TypeError'' []"

text \<open>
  \<^verbatim>\<open>data.key\<close>: reading a property of \<^verbatim>\<open>null\<close> throws a TypeError; a value that is
  not an object has none of the keys used here; an object parsed from a text that repeats a
  key holds the last value.
\<close>

fun getProp :: "json \<Rightarrow> string \<Rightarrow> thrown + json option" where
  "getProp JNull k = Inl TypeError"
| "getProp (JObj kvs) k = Inr (map_of (rev kvs) k)"
| "getProp _ k = Inr None"

text \<open>
  Truthiness. The only number that is falsy here is zero, which is printed as \<^verbatim>\<open>0\<close>;
  \<^verbatim>\<open>JSON.parse\<close> yields no NaN.
\<close>

fun truthy :: "json option \<Rightarrow> bool" where
  "truthy None = False"
| "truthy (Some JNull) = False"
| "truthy (Some (JBool b)) = b"
| "truthy (Some (JNum n)) = (n \<noteq> ''0'')"
| "truthy (Some (JStr s)) = (s \<noteq> [])"
| "truthy (Some (JArr xs)) = True"
| "truthy (Some (JObj kvs)) = True"

text \<open>The string a template literal or \<^verbatim>\<open>String(v)\<close> makes of a value.\<close>

fun js_to_string :: "json \<Rightarrow> string" where
  "js_to_string JNull = ''null''"
| "js_to_string (JBool b) = (if b then ''true'' else ''false'')"
| "js_to_string (JNum n) = n"
| "js_to_string (JStr s) = s"
| "js_to_string (JArr xs) = join '','' (map (\<lambda>x. if x = JNull then [] else js_to_string x) xs)"
| "js_to_string (JObj kvs) = ''[object Object]''"

definition template :: "json option \<Rightarrow> string" where
  "template v = (case v of None \<Rightarrow> ''undefined'' | Some x \<Rightarrow> js_to_string x)"

text \<open>
  The built-ins of the JavaScript runtime that the model takes as parameters:
  \<^verbatim>\<open>JSON.parse\<close>, with \<^term>\<open>None\<close> for its SyntaxError, and
  \<^verbatim>\<open>String.prototype.toUpperCase\<close>.
\<close>

record builtins =
  JSON_parse :: "string \<Rightarrow> json option"
  toUpperCase :: "string \<Rightarrow> string"

section \<open>The Live Interview Moderator (demo mode)\<close>

subsection \<open>Constants\<close>

definition HARDCODED_NUDGES :: "(nat \<times> string) list" where
  "HARDCODED_NUDGES = [
    (5000, ''BIAS INTERRUPTER: Asking about personal family status is inappropriate and potentially illegal. Focus on job-related qualifications instead.''),
    (6000, ''TALK RATIO MONITOR: You've been speaking for too long. Allow the candidate more time to respond and showcase their skills.''),
    (13000, ''BIAS INTERRUPTER: Comments about hiring 'younger guys' constitute age and gender discrimination. This could expose the company to legal liability.''),
    (17000, ''BIAS INTERRUPTER: Questions about marital status, pregnancy, and living arrangements are prohibited by employment law. Redirect to job-relevant topics.''),
    (21000, ''BIAS INTERRUPTER: Making assumptions about client preferences based on gender is discriminatory. Focus on the candidate's technical abilities.''),
    (25000, ''TOPIC TRACKER: You haven't discussed Kubernetes yet, which is a key requirement in the job description. Consider asking about container orchestration experience.''),
    (29000, ''TALK RATIO MONITOR: The candidate is giving brief responses because you're dominating the conversation. Ask open-ended technical questions.''),
    (33000, ''TOPIC TRACKER: Still no discussion of Kubernetes, Docker orchestration, or cloud architecture best practices. These are critical job requirements.''),
    (37000, ''BIAS INTERRUPTER: Questioning someone's seniority level in a condescending manner creates a hostile interview environment.'')]"

definition SIMULATED_TRANSCRIPT :: "string list" where
  "SIMULATED_TRANSCRIPT = [
    ''Okay, let's get started. I'm running a bit late today, had a rough night with the kids, you know how it is. Anyway, looking at your resume here... Sarah, right? That's a nice name. So you're applying for our Senior Software Engineer position. I'll be honest, we usually hire younger guys for this role since it's pretty demanding and requires a lot of energy. The startup life isn't for everyone, especially if you have family obligations or other distractions at home. We work long hours here, sometimes until midnight, and we need people who can keep up. I mean, look at me, I'm the CTO and I'm still coding at 2 AM most nights. That's just the culture here. So tell me, are you single? Married? Any kids? Because that really affects whether someone can commit to our fast-paced environment.'',
    ''I appreciate you sharing about the company culture. I'm very committed to my career and have successfully managed demanding projects throughout my six years of experience. I'd prefer to focus our discussion on the technical aspects of the role and how my skills align with your needs.'',
    ''Right, right, but I need to know what I'm dealing with here. Look, I've hired women before and they always end up leaving when they get pregnant or their husband gets transferred or whatever. It's just business reality. How old are you anyway? You look pretty young, but sometimes it's hard to tell with women, you know? And what about your living situation? Do you live alone or with roommates? Because we sometimes have last-minute travel requirements and I need to know you can just drop everything and go.'',
    ''I'm fully committed to my professional responsibilities and have always met my work obligations. Could we discuss the technical stack you're using? I have extensive experience with Python, Django, and AWS services that seems relevant to this position.'',
    ''Yeah, yeah, we'll get to the tech stuff. But first, let me tell you what we're really looking for. We need someone who fits our team culture. We're all young professionals here, mostly guys, and we like to hang out after work, grab beers, maybe hit up some clubs on weekends. It's important that our engineers can bond with the team, you know? Also, just between you and me, some of our clients are pretty old-fashioned and they prefer working with male engineers. It's not my fault, that's just how business works. So can you handle working in that kind of environment?'',
    ''I'm confident in my ability to work effectively with diverse teams and clients. My technical skills and professional experience speak for themselves. I've successfully collaborated with teams of all sizes and backgrounds throughout my career.'',
    ''Okay, fine, let's talk tech then. We use Python, obviously, Django for the web stuff, PostgreSQL for the database, and we deploy everything on AWS. Pretty standard stuff. We also use Git, I assume you know that. Docker containers, microservices architecture, the usual buzzwords. Oh, and we do agile development with two-week sprints. Nothing too complicated. I mean, if you can't handle this level of complexity, you probably shouldn't be applying for senior positions anyway. So what do you think? Can you handle working with real enterprise-level code, or are you more of a junior developer pretending to be senior?'',
    ''I have extensive experience with all those technologies. I've built and maintained microservices architectures using Python and Django, managed PostgreSQL databases with complex schemas, and have deep experience with AWS services including EC2, RDS, S3, and Lambda. I've also worked with containerization using Docker and have experience with CI/CD pipelines.'',
    ''Well, that sounds okay I guess. Look, I'll be honest with you Sarah, you seem nice enough, but I'm not sure you're tough enough for our startup environment. This isn't some cushy corporate job where you can coast. We need warriors here, people who eat code for breakfast and don't complain when things get difficult. But hey, HR makes me interview everyone, so here we are. Any questions for me? And please don't ask about work-life balance or vacation days or any of that stuff. We're building something important here.'']"

definition SIMULATION_INTERVAL :: nat where
  "SIMULATION_INTERVAL = 4000"

definition simulation_started :: string where
  "simulation_started = ''Simulation started... \<newline>\<newline>''"

definition end_of_simulation :: string where
  "end_of_simulation = ''\<newline>\<newline>--- End of Simulation ---''"

subsection \<open>State\<close>

datatype readyState = CONNECTING | OPEN | CLOSING | CLOSED

record websocket =
  url :: string
  readyState :: readyState

text \<open>
  The component's state and refs. A pending timeout is the time left, in milliseconds,
  and the message its callback appends; \<open>simulationTimer\<close> is the time left to the next
  tick of the interval, \<^term>\<open>None\<close> for \<^verbatim>\<open>null\<close>. \<open>ws\<close> is the socket that
  \<^verbatim>\<open>ws.current\<close> refers to; \<open>others\<close> are the sockets constructed before that the
  reference has left, which keep their handlers. The last five fields record effects: the
  sockets constructed, the sockets closed, the frames sent (socket and data), the messages
  handed to \<open>handleNudge\<close> (socket and data) and the alerts shown.
\<close>

record moderator =
  showModal :: bool
  isInterviewing :: bool
  isRecording :: bool
  transcript :: string
  nudges :: "string list"
  liveJobDescription :: string
  liveError :: "string option"
  ws :: "websocket option"
  simulationTimer :: "nat option"
  transcriptIndex :: nat
  nudgeTimers :: "(nat \<times> string) list"
  others :: "websocket list"
  opened :: "string list"
  closed :: "string list"
  sent :: "(string \<times> string) list"
  received :: "(string \<times> string) list"
  alerts :: "string list"

definition default_job_description :: string where
  "default_job_description =
     ''Senior Software Engineer with 5+ years of experience in Python, Django, AWS, and Kubernetes.''"

definition initial :: moderator where
  "initial = \<lparr> showModal = False, isInterviewing = False, isRecording = False,
     transcript = [], nudges = [],
     liveJobDescription = default_job_description,
     liveError = None, ws = None, simulationTimer = None, transcriptIndex = 0,
     nudgeTimers = [], others = [], opened = [], closed = [], sent = [], received = [],
     alerts = [] \<rparr>"

subsection \<open>Handlers\<close>

text \<open>
  \<open>handleNudge\<close>: the body of the \<^verbatim>\<open>try\<close> either returns the new state or throws; the
  \<^verbatim>\<open>catch\<close> logs and leaves the state as it was.
\<close>

definition handleNudge_try :: "builtins \<Rightarrow> json \<Rightarrow> moderator \<Rightarrow> thrown + moderator" where
  "handleNudge_try js data s =
     (case getProp data ''event_type'' of
        Inl e \<Rightarrow> Inl e
      | Inr event_type \<Rightarrow>
          if event_type = Some (JStr ''automatic_scribe'') then Inr s
          else (case event_type of
                  Some (JStr t) \<Rightarrow>
                    (case getProp data ''message'' of
                       Inl e \<Rightarrow> Inl e
                     | Inr m \<Rightarrow>
                         Inr (s\<lparr>nudges := nudges s @
                                [toUpperCase js (replace_underscores t) @ '': '' @ template m]\<rparr>))
                | _ \<Rightarrow> Inl TypeError))"

definition handleNudge :: "builtins \<Rightarrow> string \<Rightarrow> moderator \<Rightarrow> moderator" where
  "handleNudge js nudgeData s =
     (case JSON_parse js nudgeData of
        None \<Rightarrow> s
      | Some data \<Rightarrow> (case handleNudge_try js data s of Inl e \<Rightarrow> s | Inr s' \<Rightarrow> s'))"

definition stopRecording :: "moderator \<Rightarrow> moderator" where
  "stopRecording s = s\<lparr>simulationTimer := None, nudgeTimers := [], isRecording := False\<rparr>"

text \<open>
  \<open>handleStartSession\<close>: \<open>rnd\<close> is the text of
  \<^verbatim>\<open>Math.random().toString(36).substr(2, 9)\<close>. A socket that the reference held before
  is neither closed nor forgotten by the browser: it goes to \<open>others\<close>.
\<close>

definition left_sockets :: "moderator \<Rightarrow> websocket list" where
  "left_sockets s = (case ws s of None \<Rightarrow> others s | Some w \<Rightarrow> others s @ [w])"

definition handleStartSession :: "string \<Rightarrow> moderator \<Rightarrow> moderator" where
  "handleStartSession rnd s =
     (if trim (liveJobDescription s) = []
      then s\<lparr>alerts := alerts s @ [''Please enter a job description to provide context for the AI.'']\<rparr>
      else
        let sessionId = ''session_demo_'' @ rnd;
            u = ''ws://127.0.0.1:8000/ws/interview/'' @ sessionId
        in s\<lparr>showModal := True, isInterviewing := True, transcript := [], nudges := [],
              liveError := None, transcriptIndex := 0,
              ws := Some \<lparr>url = u, readyState = CONNECTING\<rparr>,
              others := left_sockets s,
              opened := opened s @ [u]\<rparr>)"

text \<open>\<^verbatim>\<open>ws.current?.close()\<close>: closing is recorded; the reference is dropped by the caller.\<close>

definition close_ws :: "moderator \<Rightarrow> moderator" where
  "close_ws s =
     (case ws s of
        None \<Rightarrow> s
      | Some w \<Rightarrow> s\<lparr>ws := Some (w\<lparr>readyState := (if readyState w = CLOSED then CLOSED else CLOSING)\<rparr>),
                    closed := closed s @ [url w]\<rparr>)"

definition handleEndSession :: "moderator \<Rightarrow> moderator" where
  "handleEndSession s =
     (let s1 = close_ws ((stopRecording s)\<lparr>isInterviewing := False, showModal := False\<rparr>)
      in s1\<lparr>ws := None, others := left_sockets s1\<rparr>)"

text \<open>
  \<open>startRecording\<close> pushes the new timeouts after those already held and replaces the
  reference to the interval. In every state that can be reached no timer is pending when no
  recording is under way (\<open>idle_inv\<close> below), so the reference always names the one
  interval that is live.
\<close>

definition startRecording :: "moderator \<Rightarrow> moderator" where
  "startRecording s =
     (if isRecording s then s
      else s\<lparr>isRecording := True, liveError := None, transcript := simulation_started,
             nudges := [],
             nudgeTimers := nudgeTimers s @ HARDCODED_NUDGES,
             simulationTimer := Some SIMULATION_INTERVAL\<rparr>)"

text \<open>
  The callback of the interval. The function given to \<^verbatim>\<open>setTranscript\<close> is run once, as
  React runs it in a production build; the strict mode of a development build, which runs
  it a second time, is not modelled.
\<close>

definition tick :: "moderator \<Rightarrow> moderator" where
  "tick s =
     (if transcriptIndex s \<ge> length SIMULATED_TRANSCRIPT
      then stopRecording (s\<lparr>transcript := transcript s @ end_of_simulation\<rparr>)
      else
        let chunk = SIMULATED_TRANSCRIPT ! transcriptIndex s;
            newTranscript = transcript s @ chunk @ ''\<newline>\<newline>''
        in s\<lparr>transcript := newTranscript,
              sent := (case ws s of
                         Some w \<Rightarrow> if readyState w = OPEN then sent s @ [(url w, newTranscript)] else sent s
                       | None \<Rightarrow> sent s),
              transcriptIndex := transcriptIndex s + 1\<rparr>)"

text \<open>The cleanup of the effect, run when the component unmounts.\<close>

definition cleanup :: "moderator \<Rightarrow> moderator" where
  "cleanup s = close_ws (stopRecording s)"

subsection \<open>Timers\<close>

text \<open>
  Timers fire in the order of their deadlines; of two timers due at the same time the one
  registered first fires first, so a timeout goes before the interval, which is registered
  after the timeouts and registered again at each tick.
\<close>

fun minimum :: "nat list \<Rightarrow> nat option" where
  "minimum [] = None"
| "minimum (x # xs) = (case minimum xs of None \<Rightarrow> Some x | Some m \<Rightarrow> Some (min x m))"

definition min_delay :: "moderator \<Rightarrow> nat option" where
  "min_delay s =
     minimum (map fst (nudgeTimers s) @ (case simulationTimer s of None \<Rightarrow> [] | Some d \<Rightarrow> [d]))"

definition elapse :: "nat \<Rightarrow> moderator \<Rightarrow> moderator" where
  "elapse d s =
     s\<lparr>nudgeTimers := map (\<lambda>(t, m). (t - d, m)) (nudgeTimers s),
       simulationTimer := map_option (\<lambda>t. t - d) (simulationTimer s)\<rparr>"

fun take_due :: "(nat \<times> string) list \<Rightarrow> (string \<times> (nat \<times> string) list) option" where
  "take_due [] = None"
| "take_due ((t, m) # ts) =
     (if t = 0 then Some (m, ts)
      else (case take_due ts of None \<Rightarrow> None | Some (m', ts') \<Rightarrow> Some (m', (t, m) # ts')))"

text \<open>
  One timer that is due fires: a timeout appends its message to the nudges; the interval
  is set for its next tick and its callback runs.
\<close>

definition fire_due :: "moderator \<Rightarrow> moderator" where
  "fire_due s =
     (case take_due (nudgeTimers s) of
        Some (m, ts) \<Rightarrow> s\<lparr>nudgeTimers := ts, nudges := nudges s @ [m]\<rparr>
      | None \<Rightarrow>
          if simulationTimer s = Some 0
          then tick (s\<lparr>simulationTimer := Some SIMULATION_INTERVAL\<rparr>)
          else s)"

definition pending :: "moderator \<Rightarrow> nat" where
  "pending s =
     length (nudgeTimers s) +
     (case simulationTimer s of
        None \<Rightarrow> 0
      | Some d \<Rightarrow> Suc (length SIMULATED_TRANSCRIPT - transcriptIndex s))"

text \<open>\<open>advance n\<close>: \<open>n\<close> milliseconds pass, and every timer due in them fires in its turn.\<close>

function advance :: "nat \<Rightarrow> moderator \<Rightarrow> moderator" where
  "advance n s =
     (case min_delay s of
        None \<Rightarrow> s
      | Some d \<Rightarrow> if d \<le> n then advance (n - d) (fire_due (elapse d s)) else elapse n s)"
  by pat_completeness auto
termination
proof (relation "measure (\<lambda>(n, s). pending s)")
  show "wf (measure (\<lambda>(n, s). pending s))" by simp
next
  fix n :: nat and s :: moderator and d :: nat
  assume md: "min_delay s = Some d"
  have minimum_Some: "\<And>ds m. minimum ds = Some m \<Longrightarrow> m \<in> set ds"
  proof -
    fix ds :: "nat list" and m
    show "minimum ds = Some m \<Longrightarrow> m \<in> set ds"
      by (induction ds arbitrary: m) (auto simp: min_def split: option.splits if_splits)
  qed
  have take_due_None: "\<And>ts. take_due ts = None \<Longrightarrow> \<forall>p \<in> set ts. fst p \<noteq> 0"
  proof -
    fix ts :: "(nat \<times> string) list"
    show "take_due ts = None \<Longrightarrow> \<forall>p \<in> set ts. fst p \<noteq> 0"
      by (induction ts rule: take_due.induct) (auto split: if_splits option.splits)
  qed
  have take_due_length: "\<And>ts m ts'. take_due ts = Some (m, ts') \<Longrightarrow> Suc (length ts') = length ts"
  proof -
    fix ts :: "(nat \<times> string) list" and m ts'
    show "take_due ts = Some (m, ts') \<Longrightarrow> Suc (length ts') = length ts"
      by (induction ts arbitrary: m ts' rule: take_due.induct) (auto split: if_splits option.splits)
  qed
  have pending_tick: "\<And>t a b. pending (tick (t\<lparr>simulationTimer := Some a\<rparr>)) < pending (t\<lparr>simulationTimer := Some b\<rparr>)"
    by (auto simp: pending_def tick_def stopRecording_def Let_def)
  have "pending (fire_due (elapse d s)) < pending s"
  proof (cases "take_due (nudgeTimers (elapse d s))")
    case (Some r)
    obtain m ts where r: "r = (m, ts)" by (cases r)
    from Some r have "Suc (length ts) = length (nudgeTimers s)"
      using take_due_length [of "nudgeTimers (elapse d s)" m ts] by (simp add: elapse_def)
    with Some r show ?thesis
      by (simp add: fire_due_def pending_def elapse_def split: option.splits)
  next
    case None
    let ?ds = "map fst (nudgeTimers s) @ (case simulationTimer s of None \<Rightarrow> [] | Some d \<Rightarrow> [d])"
    from md have d: "d \<in> set ?ds" using minimum_Some [of ?ds d] by (simp add: min_delay_def)
    from take_due_None [OF None] have "d \<notin> fst ` set (nudgeTimers s)"
      by (force simp: elapse_def)
    with d have sim: "simulationTimer s = Some d" by (auto split: option.splits)
    then have "simulationTimer (elapse d s) = Some 0" by (simp add: elapse_def)
    with None have "fire_due (elapse d s) = tick ((elapse d s)\<lparr>simulationTimer := Some SIMULATION_INTERVAL\<rparr>)"
      by (simp add: fire_due_def)
    moreover have "pending ((elapse d s)\<lparr>simulationTimer := Some 0\<rparr>) = pending s"
      using sim by (simp add: pending_def elapse_def)
    ultimately show ?thesis
      using pending_tick [of SIMULATION_INTERVAL "elapse d s" 0] by simp
  qed
  then show "((n - d, fire_due (elapse d s)), (n, s)) \<in> measure (\<lambda>(n, s). pending s)" by simp
qed

declare advance.simps [simp del]

subsection \<open>Events\<close>

text \<open>
  What can happen to the mounted component: a click on a button that is rendered and
  enabled, an edit of the job description, time passing, and the events of the socket.
  The start button is disabled while a session runs; the close and record buttons are in the
  modal, and the record button is disabled outside a session. Every socket constructed
  has the same handlers: a message event is delivered on a socket that is open, whether it
  is the one the reference holds (\<open>WsMessage\<close>) or one of the others, given by its position
  (\<open>OtherWsMessage\<close>), and is handed to \<open>handleNudge\<close>; the error handler can run for
  any of them.
\<close>

datatype event =
    ClickStartSession string
  | ClickEndSession
  | ClickRecord
  | EditJobDescription string
  | Wait nat
  | WsOpen
  | WsClose
  | WsError
  | WsMessage string
  | OtherWsOpen nat
  | OtherWsClose nat
  | OtherWsMessage nat string

definition ws_onerror :: "moderator \<Rightarrow> moderator" where
  "ws_onerror s =
     stopRecording (s\<lparr>liveError := Some ''WebSocket connection failed. Ensure the backend server is running.''\<rparr>)"

definition deliver :: "builtins \<Rightarrow> websocket \<Rightarrow> string \<Rightarrow> moderator \<Rightarrow> moderator" where
  "deliver js w d s =
     (if readyState w = OPEN
      then (handleNudge js d s)\<lparr>received := received s @ [(url w, d)]\<rparr>
      else s)"

fun apply_event :: "builtins \<Rightarrow> event \<Rightarrow> moderator \<Rightarrow> moderator" where
  "apply_event js (ClickStartSession rnd) s =
     (if isInterviewing s then s else handleStartSession rnd s)"
| "apply_event js ClickEndSession s = (if showModal s then handleEndSession s else s)"
| "apply_event js ClickRecord s =
     (if showModal s \<and> isInterviewing s
      then (if isRecording s then stopRecording s else startRecording s)
      else s)"
| "apply_event js (EditJobDescription j) s = s\<lparr>liveJobDescription := j\<rparr>"
| "apply_event js (Wait n) s = advance n s"
| "apply_event js WsOpen s =
     (case ws s of
        Some w \<Rightarrow> if readyState w = CONNECTING then s\<lparr>ws := Some (w\<lparr>readyState := OPEN\<rparr>)\<rparr> else s
      | None \<Rightarrow> s)"
| "apply_event js WsClose s =
     (case ws s of Some w \<Rightarrow> s\<lparr>ws := Some (w\<lparr>readyState := CLOSED\<rparr>)\<rparr> | None \<Rightarrow> s)"
| "apply_event js WsError s = (if opened s = [] then s else ws_onerror s)"
| "apply_event js (WsMessage d) s =
     (case ws s of Some w \<Rightarrow> deliver js w d s | None \<Rightarrow> s)"
| "apply_event js (OtherWsOpen i) s =
     (if i < length (others s) \<and> readyState (others s ! i) = CONNECTING
      then s\<lparr>others := (others s)[i := (others s ! i)\<lparr>readyState := OPEN\<rparr>]\<rparr>
      else s)"
| "apply_event js (OtherWsClose i) s =
     (if i < length (others s)
      then s\<lparr>others := (others s)[i := (others s ! i)\<lparr>readyState := CLOSED\<rparr>]\<rparr>
      else s)"
| "apply_event js (OtherWsMessage i d) s =
     (if i < length (others s) then deliver js (others s ! i) d s else s)"

definition exec :: "builtins \<Rightarrow> event list \<Rightarrow> moderator \<Rightarrow> moderator" where
  "exec js evs s = foldl (\<lambda>s e. apply_event js e s) s evs"

text \<open>No timer is pending.\<close>

definition no_timers :: "moderator \<Rightarrow> bool" where
  "no_timers s = (simulationTimer s = None \<and> nudgeTimers s = [])"

text \<open>
  The text of the chunks with the indices from \<open>i\<close> up to, not including, \<open>j\<close>, each
  followed by two newlines.
\<close>

definition consumed :: "nat \<Rightarrow> nat \<Rightarrow> string" where
  "consumed i j = concat (map (\<lambda>c. c @ ''\<newline>\<newline>'') (take (j - i) (drop i SIMULATED_TRANSCRIPT)))"

text \<open>
  While the interval is live, the transcript is the marker followed by the chunks from
  index \<open>i\<close> up to the current index.
\<close>

definition recording_inv :: "nat \<Rightarrow> moderator \<Rightarrow> bool" where
  "recording_inv i s =
     (simulationTimer s = None \<or>
      (isInterviewing s \<and> i \<le> transcriptIndex s \<and>
       transcript s = simulation_started @ consumed i (transcriptIndex s)))"

text \<open>A socket on which \<^verbatim>\<open>close\<close> was called, or which is closed.\<close>

definition shut :: "websocket \<Rightarrow> bool" where
  "shut w = (readyState w = CLOSING \<or> readyState w = CLOSED)"

text \<open>
  During a session the socket in use has the address \<open>u\<close>, the sockets constructed are
  \<open>os\<close>, and every frame sent since \<open>fs0\<close> went to \<open>u\<close>.
\<close>

definition session_inv :: "string \<Rightarrow> string list \<Rightarrow> (string \<times> string) list \<Rightarrow> moderator \<Rightarrow> bool" where
  "session_inv u os fs0 s =
     (isInterviewing s \<and> (\<exists>w. ws s = Some w \<and> url w = u) \<and> opened s = os \<and>
      (\<exists>fs. sent s = fs0 @ fs \<and> list_all (\<lambda>f. fst f = u) fs))"

text \<open>
  The same for the messages received since \<open>ms0\<close>, all the other sockets being shut.
\<close>

definition receiving_inv :: "string \<Rightarrow> (string \<times> string) list \<Rightarrow> moderator \<Rightarrow> bool" where
  "receiving_inv u ms0 s =
     (isInterviewing s \<and> (\<exists>w. ws s = Some w \<and> url w = u) \<and> list_all shut (others s) \<and>
      (\<exists>ms. received s = ms0 @ ms \<and> list_all (\<lambda>m. fst m = u) ms))"

text \<open>
  Outside a session the reference holds no socket, and the sockets it has left are shut.
\<close>

definition sockets_inv :: "moderator \<Rightarrow> bool" where
  "sockets_inv s = ((isInterviewing s \<or> ws s = None) \<and> list_all shut (others s))"







text \<open>
  A runtime for the examples below: \<^verbatim>\<open>JSON.parse\<close> on the two texts used, and
  \<^verbatim>\<open>toUpperCase\<close> on ASCII text, where it maps the letters a-z.
\<close>

definition parse_example :: "string \<Rightarrow> json option" where
  "parse_example d =
     (if d = ''{\"event_type\": \"bias_alert\", \"message\": \"Stay on topic\"}''
      then Some (JObj [(''event_type'', JStr ''bias_alert''), (''message'', JStr ''Stay on topic'')])
      else if d = ''{}'' then Some (JObj [])
      else None)"

definition ascii_upper :: "string \<Rightarrow> string" where
  "ascii_upper s =
     map (\<lambda>c. case map_of (zip lower_letters upper_letters) c of Some u \<Rightarrow> u | None \<Rightarrow> c) s"

definition example_js :: builtins where
  "example_js = \<lparr>JSON_parse = parse_example, toUpperCase = ascii_upper\<rparr>"

section \<open>The hiring page and the interview briefing\<close>

subsection \<open>Requests and responses\<close>

record File =
  name :: string
  content :: string

datatype req_body = NoBody | FormData File | Json json

text \<open>
  A \<^verbatim>\<open>fetch\<close> call: the method, the address and the body. A body made with
  \<^verbatim>\<open>JSON.stringify\<close> is kept as the object it was made of.
\<close>

record request =
  http_method :: string
  target :: string
  payload :: req_body

text \<open>
  A response has a status and a body; \<^verbatim>\<open>response.json()\<close> gives the parsed body or
  rejects with a SyntaxError, whose message is the left alternative. \<^verbatim>\<open>fetch\<close> itself
  rejects when the server cannot be reached.
\<close>

record 'a response =
  status :: nat
  json_body :: "string + 'a"

definition ok :: "'a response \<Rightarrow> bool" where
  "ok r = (200 \<le> status r \<and> status r \<le> 299)"

datatype 'a fetch_result = Rejected thrown | Resolved "'a response"

text \<open>The decimal digits of a status code, as a template literal prints it.\<close>

definition digit_char :: "nat \<Rightarrow> char" where
  "digit_char n = ''0123456789'' ! n"

function show_nat :: "nat \<Rightarrow> string" where
  "show_nat n = (if n < 10 then [digit_char n] else show_nat (n div 10) @ [digit_char (n mod 10)])"
  by pat_completeness auto
termination
  by (relation "measure (\<lambda>n. n)") auto

declare show_nat.simps [simp del]

text \<open>\<^verbatim>\<open>s.includes(sub)\<close>.\<close>

fun js_includes :: "string \<Rightarrow> string \<Rightarrow> bool" where
  "js_includes [] sub = (sub = [])"
| "js_includes (c # cs) sub = (take (length sub) (c # cs) = sub \<or> js_includes cs sub)"

subsection \<open>Error messages\<close>

definition baseUrl :: string where
  "baseUrl = ''http://127.0.0.1:8000''"

definition startCommand :: string where
  "startCommand = ''uvicorn main:app --reload''"

text \<open>
  \<open>buildErrorMessage\<close>: the test \<^verbatim>\<open>/failed to fetch/i\<close> looks for the words anywhere in the
  message, in either case.
\<close>

definition buildErrorMessage :: "thrown \<Rightarrow> string \<Rightarrow> string" where
  "buildErrorMessage e prefix =
     (case e of
        JsError nm msg \<Rightarrow>
          if js_includes (toLowerCase msg) ''failed to fetch'' \<or> nm = ''TypeError''
          then prefix @ '': Unable to reach the backend service. Ensure the FastAPI server is running at ''
                 @ baseUrl @ '' (for example, run `'' @ startCommand @ ''` from the backend folder).''
          else prefix @ '': '' @ msg
      | NonError \<Rightarrow> prefix @ '': Unknown error'')"

subsection \<open>State of the hiring page\<close>

record ParsedResume =
  raw_text :: string
  other_keys :: "(string \<times> json) list"

record ScreeningResult =
  candidate :: string
  rank :: int
  justification :: "string list"
  summary :: string


datatype ParseResumeResponse =
  ParseResumeResponse (parsed_resume: ParsedResume) (pr_error: "string option")

text \<open>
  The state the handlers below read and write. The last two fields record effects: the
  requests issued, and whether the timeout that closes the email modal is pending.
\<close>

record home =
  jobPrompt :: string
  jobDescription :: string
  jobLoading :: bool
  resumeFiles :: "File list"
  parsedResumes :: "string \<rightharpoonup> ParsedResume"
  screeningResults :: "ScreeningResult list"
  emailContent :: string
  isEmailModalOpen :: bool
  intervieweeEmail :: string
  emailSending :: bool
  error :: string
  successMessage :: string
  requests :: "request list"
  closeModalTimer :: bool

subsection \<open>Handlers of the hiring page\<close>

text \<open>What \<^verbatim>\<open>throw new Error(`HTTP error! status: ${response.status}`)\<close> throws.\<close>

definition http_error :: "'a response \<Rightarrow> thrown" where
  "http_error r = JsError ''Error'' (''HTTP error! status: '' @ show_nat (status r))"


text \<open>\<open>parseResumeFile\<close> returns what it resolves to or throws, and the requests it issued.\<close>

definition parseResumeFile ::
    "(request \<Rightarrow> ParseResumeResponse fetch_result) \<Rightarrow> File \<Rightarrow> (thrown + ParsedResume) \<times> request list" where
  "parseResumeFile fetch f =
     (if \<not> endsWith (toLowerCase (name f)) ''.pdf''
      then (Inl (JsError ''Error'' ''Only PDF files are supported.''), [])
      else
        let req = \<lparr>http_method = ''POST'', target = baseUrl @ ''/api/parse-resume'', payload = FormData f\<rparr>
        in ((case fetch req of
               Rejected e \<Rightarrow> Inl e
             | Resolved r \<Rightarrow>
                 if \<not> ok r then Inl (http_error r)
                 else (case json_body r of
                         Inl msg \<Rightarrow> Inl (JsError ''SyntaxError'' msg)
                       | Inr data \<Rightarrow>
                           (case pr_error data of
                              Some e \<Rightarrow> if e \<noteq> [] then Inl (JsError ''Error'' e)
                                        else Inr (parsed_resume data)
                            | None \<Rightarrow> Inr (parsed_resume data)))),
            [req]))"

text \<open>
  \<open>handleResumeSelection\<close>: \<open>newFiles\<close> are the files of the input element. Every path
  also empties the value of the input element, which is not part of the state.
\<close>

definition handleResumeSelection ::"File list \<Rightarrow> home \<Rightarrow> home" where
  "handleResumeSelection newFiles s =
     (if list_ex (\<lambda>f. \<not> endsWith (toLowerCase (name f)) ''.pdf'') newFiles
      then s\<lparr>error := ''Only PDF files are supported.''\<rparr>
      else
        let duplicateFiles =
              filter (\<lambda>newFile. list_ex (\<lambda>existingFile. name existingFile = name newFile) (resumeFiles s))
                newFiles
        in if length duplicateFiles > 0
           then
             let s1 = s\<lparr>error := ''Duplicate files detected: '' @ join '', '' (map name duplicateFiles)
                                     @ ''. These files were not added again.''\<rparr>;
                 uniqueNewFiles =
                   filter (\<lambda>newFile. \<not> list_ex (\<lambda>existingFile. name existingFile = name newFile) (resumeFiles s))
                     newFiles
             in if length uniqueNewFiles = 0 then s1
                else s1\<lparr>error := [], resumeFiles := resumeFiles s1 @ uniqueNewFiles,
                        screeningResults := []\<rparr>
           else s\<lparr>error := [], resumeFiles := resumeFiles s @ newFiles, screeningResults := []\<rparr>)"

definition handleRemoveResume :: "string \<Rightarrow> home \<Rightarrow> home" where
  "handleRemoveResume fileName s =
     s\<lparr>resumeFiles := filter (\<lambda>f. name f \<noteq> fileName) (resumeFiles s),
       parsedResumes := (parsedResumes s)(fileName := None),
       screeningResults := []\<rparr>"

text \<open>
  \<open>handleSendEmail\<close>. The bodies of the responses are untyped here. The seven bytes at the
  head of the success message are the three characters that stand before the word Email in
  the source file.
\<close>

definition email_sent_mark :: string where
  "email_sent_mark = [CHR 0xE2, CHR 0x80, CHR 0x9A, CHR 0xC3, CHR 0xBA, CHR 0xC3, CHR 0x96]"

definition send_email_outcome :: "json fetch_result \<Rightarrow> thrown + unit" where
  "send_email_outcome res =
     (case res of
        Rejected e \<Rightarrow> Inl e
      | Resolved r \<Rightarrow>
          if \<not> ok r
          then
            (let errorData = (case json_body r of Inl msg \<Rightarrow> JObj [] | Inr d \<Rightarrow> d)
             in case getProp errorData ''detail'' of
                  Inl e \<Rightarrow> Inl e
                | Inr detail \<Rightarrow>
                    Inl (if truthy detail then JsError ''Error'' (template detail) else http_error r))
          else
            (case json_body r of
               Inl msg \<Rightarrow> Inl (JsError ''SyntaxError'' msg)
             | Inr data \<Rightarrow>
                 (case getProp data ''success'' of
                    Inl e \<Rightarrow> Inl e
                  | Inr success \<Rightarrow>
                      if \<not> truthy success
                      then (case getProp data ''message'' of
                              Inl e \<Rightarrow> Inl e
                            | Inr m \<Rightarrow>
                                Inl (JsError ''Error''
                                      (if truthy m then template m else ''Failed to send email'')))
                      else Inr ())))"

definition handleSendEmail :: "(request \<Rightarrow> json fetch_result) \<Rightarrow> home \<Rightarrow> home" where
  "handleSendEmail fetch s =
     (if intervieweeEmail s = [] then s\<lparr>error := ''Please enter the interviewee's email address.''\<rparr>
      else
        let req = \<lparr>http_method = ''POST'', target = baseUrl @ ''/api/send-email'',
                   payload = Json (JObj [(''to_email'', JStr (intervieweeEmail s)),
                                         (''subject'', JStr ''Interview Confirmation - Aegis Hire''),
                                         (''body'', JStr (emailContent s))])\<rparr>;
            s1 = s\<lparr>emailSending := True, error := [], successMessage := [],
                   requests := requests s @ [req]\<rparr>
        in (case send_email_outcome (fetch req) of
              Inl e \<Rightarrow> s1\<lparr>error := buildErrorMessage e ''Failed to send email''\<rparr>
            | Inr u \<Rightarrow>
                s1\<lparr>successMessage := email_sent_mark @ '' Email sent successfully to ''
                                         @ intervieweeEmail s @ ''!'',
                   closeModalTimer := True\<rparr>)\<lparr>emailSending := False\<rparr>)"

text \<open>The callback of the timeout set after a successful send, 2000 ms later.\<close>

definition close_email_modal :: "home \<Rightarrow> home" where
  "close_email_modal s =
     s\<lparr>isEmailModalOpen := False, intervieweeEmail := [], successMessage := [],
       closeModalTimer := False\<rparr>"

subsection \<open>The resume upload of the interview briefing\<close>




text \<open>The state of the hiring page when it is first rendered.\<close>

definition blank_home :: home where
  "blank_home = \<lparr> jobPrompt = [], jobDescription = [], jobLoading = False, resumeFiles = [],
     parsedResumes = Map.empty, screeningResults = [], emailContent = [], isEmailModalOpen = False,
     intervieweeEmail = [], emailSending = False, error = [], successMessage = [],
     requests = [], closeModalTimer = False \<rparr>"

section \<open>Properties of the Live Interview Moderator\<close>

subsection \<open>Timers, one step at a time\<close>


lemma advance_fire:
  "min_delay s = Some d \<Longrightarrow> d \<le> n \<Longrightarrow> advance n s = advance (n - d) (fire_due (elapse d s))"
  by (subst advance.simps) simp

lemma advance_rest: "min_delay s = Some d \<Longrightarrow> \<not> d \<le> n \<Longrightarrow> advance n s = elapse n s"
  by (subst advance.simps) simp

lemma advance_idle: "min_delay s = None \<Longrightarrow> advance n s = s"
  by (subst advance.simps) simp

lemma tick_frame:
  "isInterviewing (tick s) = isInterviewing s \<and> showModal (tick s) = showModal s \<and>
   ws (tick s) = ws s \<and> opened (tick s) = opened s \<and> closed (tick s) = closed s \<and>
   liveJobDescription (tick s) = liveJobDescription s \<and> nudges (tick s) = nudges s \<and>
   others (tick s) = others s \<and> received (tick s) = received s"
  by (simp add: tick_def stopRecording_def Let_def)

lemma fire_due_frame:
  "isInterviewing (fire_due s) = isInterviewing s \<and> showModal (fire_due s) = showModal s \<and>
   ws (fire_due s) = ws s \<and> opened (fire_due s) = opened s \<and> closed (fire_due s) = closed s \<and>
   liveJobDescription (fire_due s) = liveJobDescription s \<and>
   others (fire_due s) = others s \<and> received (fire_due s) = received s"
  by (simp add: fire_due_def tick_frame split: option.splits prod.splits)

lemma elapse_frame:
  "isInterviewing (elapse d s) = isInterviewing s \<and> showModal (elapse d s) = showModal s \<and>
   ws (elapse d s) = ws s \<and> opened (elapse d s) = opened s \<and> closed (elapse d s) = closed s \<and>
   liveJobDescription (elapse d s) = liveJobDescription s \<and> nudges (elapse d s) = nudges s \<and>
   transcript (elapse d s) = transcript s \<and> transcriptIndex (elapse d s) = transcriptIndex s \<and>
   sent (elapse d s) = sent s \<and> isRecording (elapse d s) = isRecording s \<and>
   others (elapse d s) = others s \<and> received (elapse d s) = received s"
  by (simp add: elapse_def)

lemma advance_frame:
  "isInterviewing (advance n s) = isInterviewing s \<and> showModal (advance n s) = showModal s \<and>
   ws (advance n s) = ws s \<and> opened (advance n s) = opened s \<and> closed (advance n s) = closed s \<and>
   liveJobDescription (advance n s) = liveJobDescription s \<and>
   others (advance n s) = others s \<and> received (advance n s) = received s"
proof (induction n s rule: advance.induct)
  case (1 n s)
  show ?case
  proof (cases "min_delay s")
    case None
    then show ?thesis by (simp add: advance_idle)
  next
    case (Some d)
    show ?thesis
    proof (cases "d \<le> n")
      case True
      with "1.IH" [OF Some True] show ?thesis
        by (simp add: advance_fire [OF Some True] fire_due_frame elapse_frame)
    next
      case False
      then show ?thesis by (simp add: advance_rest [OF Some False] elapse_frame)
    qed
  qed
qed

subsection \<open>The job description plays no part\<close>







subsection \<open>Idle states\<close>

lemma advance_no_timers: "no_timers s \<Longrightarrow> advance n s = s"
  by (simp add: no_timers_def advance.simps min_delay_def)

lemma no_timers_stopRecording: "no_timers (stopRecording s)"
  by (simp add: no_timers_def stopRecording_def)

lemma handleNudge_frame:
  "simulationTimer (handleNudge js d s) = simulationTimer s \<and>
   nudgeTimers (handleNudge js d s) = nudgeTimers s \<and>
   transcript (handleNudge js d s) = transcript s \<and>
   transcriptIndex (handleNudge js d s) = transcriptIndex s \<and>
   isRecording (handleNudge js d s) = isRecording s \<and>
   isInterviewing (handleNudge js d s) = isInterviewing s \<and>
   showModal (handleNudge js d s) = showModal s \<and>
   ws (handleNudge js d s) = ws s \<and>
   sent (handleNudge js d s) = sent s \<and>
   opened (handleNudge js d s) = opened s \<and>
   others (handleNudge js d s) = others s \<and>
   received (handleNudge js d s) = received s"
  by (auto simp: handleNudge_def handleNudge_try_def split: option.splits sum.splits json.splits)

lemma deliver_frame:
  "simulationTimer (deliver js w d s) = simulationTimer s \<and>
   nudgeTimers (deliver js w d s) = nudgeTimers s \<and>
   transcript (deliver js w d s) = transcript s \<and>
   transcriptIndex (deliver js w d s) = transcriptIndex s \<and>
   isRecording (deliver js w d s) = isRecording s \<and>
   isInterviewing (deliver js w d s) = isInterviewing s \<and>
   showModal (deliver js w d s) = showModal s \<and>
   ws (deliver js w d s) = ws s \<and>
   sent (deliver js w d s) = sent s \<and>
   opened (deliver js w d s) = opened s \<and>
   others (deliver js w d s) = others s"
  by (simp add: deliver_def handleNudge_frame)

lemma apply_event_no_timers:
  "no_timers s \<Longrightarrow> e \<noteq> ClickRecord \<Longrightarrow> no_timers (apply_event js e s)"
  by (cases e)
     (auto simp: no_timers_def handleStartSession_def handleEndSession_def close_ws_def
        stopRecording_def ws_onerror_def deliver_frame Let_def advance.simps min_delay_def
        split: option.splits)

lemma exec_no_timers:
  "no_timers s \<Longrightarrow> ClickRecord \<notin> set evs \<Longrightarrow> no_timers (exec js evs s)"
  unfolding exec_def
  by (induction evs arbitrary: s) (auto simp: apply_event_no_timers)

lemma apply_event_transcript_idle:
  "no_timers s \<Longrightarrow> e \<noteq> ClickRecord \<Longrightarrow>
   transcript (apply_event js e s) = transcript s \<or> transcript (apply_event js e s) = []"
  by (cases e)
     (auto simp: no_timers_def handleStartSession_def handleEndSession_def close_ws_def
        stopRecording_def ws_onerror_def deliver_frame Let_def advance.simps min_delay_def
        split: option.splits)

lemma exec_transcript_idle:
  "no_timers s \<Longrightarrow> ClickRecord \<notin> set evs \<Longrightarrow>
   transcript (exec js evs s) = transcript s \<or> transcript (exec js evs s) = []"
  unfolding exec_def
proof (induction evs arbitrary: s)
  case Nil
  then show ?case by simp
next
  case (Cons e evs)
  from Cons.prems have ne: "e \<noteq> ClickRecord" by auto
  have nt: "no_timers (apply_event js e s)" using Cons.prems(1) ne by (rule apply_event_no_timers)
  from Cons.prems have ev: "ClickRecord \<notin> set evs" by simp
  from Cons.IH [OF nt ev] apply_event_transcript_idle [OF Cons.prems(1) ne, of js]
  show ?case by auto
qed

subsection \<open>The script\<close>

lemma nudge_shape: "\<exists>m1 m2 m3 m4 m5 m6 m7 m8 m9. HARDCODED_NUDGES =
  [(5000, m1), (6000, m2), (13000, m3), (17000, m4), (21000, m5), (25000, m6), (29000, m7),
   (33000, m8), (37000, m9)]"
  unfolding HARDCODED_NUDGES_def by (intro exI) (rule refl)

lemma transcript_shape:
  "\<exists>c1 c2 c3 c4 c5 c6 c7 c8 c9. SIMULATED_TRANSCRIPT = [c1, c2, c3, c4, c5, c6, c7, c8, c9]"
  unfolding SIMULATED_TRANSCRIPT_def by (intro exI) (rule refl)




lemma default_job_description_not_blank: "trim default_job_description \<noteq> []"
  by (simp add: trim_def trimStart_def trimEnd_def strip_front.simps white_space_def
        default_job_description_def)

lemma trim_examples:
  "trim [CHR 0xC2, CHR 0xA0] = [] \<and>
   trim ([CHR 0xC2, CHR 0xA0] @ '' a b '' @ [CHR 0xE2, CHR 0x80, CHR 0x83, CHR 0x09]) = ''a b'' \<and>
   trim [CHR 0xE2, CHR 0x80, CHR 0x8B] = [CHR 0xE2, CHR 0x80, CHR 0x8B]"
  by (simp add: trim_def trimStart_def trimEnd_def strip_front.simps white_space_def)


subsection \<open>What a tick sends\<close>

lemma consumed_Suc:
  assumes "i \<le> k" and "k < length SIMULATED_TRANSCRIPT"
  shows "consumed i (Suc k) = consumed i k @ SIMULATED_TRANSCRIPT ! k @ ''\<newline>\<newline>''"
proof -
  let ?xs = "drop i SIMULATED_TRANSCRIPT"
  from assms have len: "k - i < length ?xs" by simp
  from assms have "Suc k - i = Suc (k - i)" by simp
  then have "take (Suc k - i) ?xs = take (k - i) ?xs @ [?xs ! (k - i)]"
    using len by (simp add: take_Suc_conv_app_nth)
  moreover from assms have "?xs ! (k - i) = SIMULATED_TRANSCRIPT ! k" by simp
  ultimately show ?thesis by (simp add: consumed_def)
qed




lemma recording_inv_tick:
  assumes "recording_inv i s"
  shows "recording_inv i (tick s)"
proof (cases "simulationTimer s = None \<or> length SIMULATED_TRANSCRIPT \<le> transcriptIndex s")
  case True
  then show ?thesis
    by (auto simp: recording_inv_def tick_def stopRecording_def Let_def)
next
  case False
  with assms have h: "isInterviewing s" "i \<le> transcriptIndex s"
    "transcript s = simulation_started @ consumed i (transcriptIndex s)"
    "transcriptIndex s < length SIMULATED_TRANSCRIPT"
    by (auto simp: recording_inv_def)
  from consumed_Suc [OF h(2) h(4)] h False show ?thesis
    by (simp add: recording_inv_def tick_def Let_def)
qed

lemma recording_inv_fire_due:
  assumes "recording_inv i s"
  shows "recording_inv i (fire_due s)"
proof (cases "take_due (nudgeTimers s)")
  case None
  show ?thesis
  proof (cases "simulationTimer s = Some 0")
    case True
    from assms True have "recording_inv i (s\<lparr>simulationTimer := Some SIMULATION_INTERVAL\<rparr>)"
      by (simp add: recording_inv_def)
    from recording_inv_tick [OF this] None True show ?thesis by (simp add: fire_due_def)
  next
    case False
    with None assms show ?thesis by (simp add: fire_due_def)
  qed
next
  case (Some r)
  with assms show ?thesis by (cases r) (simp add: fire_due_def recording_inv_def)
qed

lemma recording_inv_elapse: "recording_inv i s \<Longrightarrow> recording_inv i (elapse d s)"
  by (auto simp: recording_inv_def elapse_def)

lemma recording_inv_advance: "recording_inv i s \<Longrightarrow> recording_inv i (advance n s)"
proof (induction n s rule: advance.induct)
  case (1 n s)
  show ?case
  proof (cases "min_delay s")
    case None
    with "1.prems" show ?thesis by (simp add: advance_idle)
  next
    case (Some d)
    show ?thesis
    proof (cases "d \<le> n")
      case True
      from "1.prems" have "recording_inv i (fire_due (elapse d s))"
        by (intro recording_inv_fire_due recording_inv_elapse)
      from "1.IH" [OF Some True this] show ?thesis by (simp add: advance_fire [OF Some True])
    next
      case False
      with "1.prems" show ?thesis by (simp add: advance_rest [OF Some False] recording_inv_elapse)
    qed
  qed
qed

lemma recording_inv_event:
  assumes "recording_inv i s" and "e \<noteq> ClickRecord"
  shows "recording_inv i (apply_event js e s)"
proof (cases e)
  case (Wait n)
  with assms show ?thesis by (simp add: recording_inv_advance)
next
  case (WsMessage d)
  with assms show ?thesis
    by (auto simp: recording_inv_def deliver_frame split: option.splits)
next
  case (ClickStartSession rnd)
  with assms show ?thesis
    by (auto simp: recording_inv_def handleStartSession_def Let_def)
qed (use assms in \<open>auto simp: recording_inv_def handleEndSession_def close_ws_def
       stopRecording_def ws_onerror_def deliver_frame left_sockets_def Let_def
       split: option.splits\<close>)

lemma recording_inv_exec:
  "recording_inv i s \<Longrightarrow> ClickRecord \<notin> set evs \<Longrightarrow> recording_inv i (exec js evs s)"
  unfolding exec_def
proof (induction evs arbitrary: s)
  case Nil
  then show ?case by simp
next
  case (Cons e evs)
  from Cons.prems have ne: "e \<noteq> ClickRecord" and ev: "ClickRecord \<notin> set evs" by auto
  from Cons.IH [OF recording_inv_event [OF Cons.prems(1) ne] ev] show ?case by simp
qed

text \<open>
  Claim C2. In a recording started from \<open>s0\<close>, whatever happens next short of another click
  on the record button, a tick that consumes a chunk while the socket is open sends one
  frame: the marker followed by every chunk consumed since this recording started, the new
  one included, each followed by two newlines. That text is the new transcript. The chunks
  consumed by an earlier recording of the session are not in the frame: \<open>startRecording\<close>
  clears the transcript and leaves the index where it was.
\<close>

theorem tick_sends_full_transcript:
  assumes "isInterviewing s0" and "\<not> isRecording s0"
    and "ClickRecord \<notin> set evs"
    and "s = exec js evs (startRecording s0)"
    and "simulationTimer s \<noteq> None"
    and "transcriptIndex s < length SIMULATED_TRANSCRIPT"
    and "ws s = Some w" and "readyState w = OPEN"
  shows "sent (tick s) = sent s @
           [(url w, simulation_started @ consumed (transcriptIndex s0) (Suc (transcriptIndex s)))] \<and>
         consumed (transcriptIndex s0) (Suc (transcriptIndex s)) =
           consumed (transcriptIndex s0) (transcriptIndex s) @
             SIMULATED_TRANSCRIPT ! transcriptIndex s @ ''\<newline>\<newline>'' \<and>
         transcript (tick s) = simulation_started @ consumed (transcriptIndex s0) (Suc (transcriptIndex s)) \<and>
         transcriptIndex (startRecording s0) = transcriptIndex s0 \<and>
         transcript (startRecording s0) = simulation_started"
proof -
  have "recording_inv (transcriptIndex s0) (startRecording s0)"
    using assms(1,2) by (simp add: recording_inv_def startRecording_def consumed_def)
  from recording_inv_exec [OF this assms(3), of js] assms(4,5)
  have inv: "transcriptIndex s0 \<le> transcriptIndex s"
    "transcript s = simulation_started @ consumed (transcriptIndex s0) (transcriptIndex s)"
    by (auto simp: recording_inv_def)
  have "transcriptIndex (startRecording s0) = transcriptIndex s0 \<and>
        transcript (startRecording s0) = simulation_started"
    using assms(2) by (simp add: startRecording_def)
  with consumed_Suc [OF inv(1) assms(6)] inv(2) assms(6,7,8) show ?thesis
    by (simp add: tick_def Let_def)
qed

theorem tick_sends_full_transcript_witness:
  "isInterviewing (exec example_js [ClickStartSession ''k3j9x0q2a'', WsOpen] initial) \<and>
   \<not> isRecording (exec example_js [ClickStartSession ''k3j9x0q2a'', WsOpen] initial) \<and>
   ClickRecord \<notin> set [Wait 4000] \<and>
   simulationTimer (exec example_js [Wait 4000]
     (startRecording (exec example_js [ClickStartSession ''k3j9x0q2a'', WsOpen] initial))) = Some 4000 \<and>
   transcriptIndex (exec example_js [Wait 4000]
     (startRecording (exec example_js [ClickStartSession ''k3j9x0q2a'', WsOpen] initial))) = 1 \<and>
   sent (tick (exec example_js [Wait 4000]
     (startRecording (exec example_js [ClickStartSession ''k3j9x0q2a'', WsOpen] initial)))) =
   [(''ws://127.0.0.1:8000/ws/interview/session_demo_k3j9x0q2a'',
       simulation_started @ SIMULATED_TRANSCRIPT ! 0 @ ''\<newline>\<newline>''),
    (''ws://127.0.0.1:8000/ws/interview/session_demo_k3j9x0q2a'',
       simulation_started @ SIMULATED_TRANSCRIPT ! 0 @ ''\<newline>\<newline>'' @ SIMULATED_TRANSCRIPT ! 1 @ ''\<newline>\<newline>'')]"
proof -
  obtain m1 m2 m3 m4 m5 m6 m7 m8 m9 where N: "HARDCODED_NUDGES =
    [(5000, m1), (6000, m2), (13000, m3), (17000, m4), (21000, m5), (25000, m6), (29000, m7),
     (33000, m8), (37000, m9)]"
    using nudge_shape by blast
  obtain c1 c2 c3 c4 c5 c6 c7 c8 c9 where T: "SIMULATED_TRANSCRIPT = [c1, c2, c3, c4, c5, c6, c7, c8, c9]"
    using transcript_shape by blast
  let ?a = "exec example_js [ClickStartSession ''k3j9x0q2a'', WsOpen] initial"
  let ?b = "exec example_js [Wait 4000] (startRecording ?a)"
  let ?w = "\<lparr>url = ''ws://127.0.0.1:8000/ws/interview/session_demo_k3j9x0q2a'', readyState = OPEN\<rparr>"
  note defs = N T exec_def initial_def handleStartSession_def default_job_description_not_blank
      left_sockets_def startRecording_def SIMULATION_INTERVAL_def advance.simps min_delay_def
      elapse_def fire_due_def tick_def stopRecording_def Let_def
  have h1: "isInterviewing ?a" and h2: "\<not> isRecording ?a" by (simp_all add: defs)
  have h3: "ClickRecord \<notin> set [Wait 4000]" by simp
  have h5: "simulationTimer ?b \<noteq> None" and h5': "simulationTimer ?b = Some 4000"
    and h6': "transcriptIndex ?b = 1" and h0: "transcriptIndex ?a = 0"
    and h7: "ws ?b = Some ?w" and h9: "sent ?b = [(url ?w, simulation_started @ SIMULATED_TRANSCRIPT ! 0 @ ''\<newline>\<newline>'')]"
    by (simp_all add: defs)
  have h6: "transcriptIndex ?b < length SIMULATED_TRANSCRIPT" by (simp add: h6' T)
  have h8: "readyState ?w = OPEN" by simp
  have c: "consumed 0 (Suc 1) = SIMULATED_TRANSCRIPT ! 0 @ ''\<newline>\<newline>'' @ SIMULATED_TRANSCRIPT ! 1 @ ''\<newline>\<newline>''"
    by (simp add: consumed_def T)
  from tick_sends_full_transcript [OF h1 h2 h3 refl h5 h6 h7 h8] h1 h2 h3 h5' h6' h0 h9 c
  show ?thesis by simp
qed

text \<open>
  The claim as worded fails in a second recording of a session. The record button is
  clicked, two chunks are consumed, the button is clicked again to stop and a third time
  to record again: the frame of the next tick holds the marker and the third chunk only,
  not the three chunks consumed so far.
\<close>

theorem tick_sends_full_transcript_counterexample:
  "map snd (sent (exec example_js
      [ClickStartSession ''k3j9x0q2a'', WsOpen, ClickRecord, Wait 9000, ClickRecord, ClickRecord,
       Wait 4000] initial)) =
     [simulation_started @ SIMULATED_TRANSCRIPT ! 0 @ ''\<newline>\<newline>'',
      simulation_started @ SIMULATED_TRANSCRIPT ! 0 @ ''\<newline>\<newline>'' @ SIMULATED_TRANSCRIPT ! 1 @ ''\<newline>\<newline>'',
      simulation_started @ SIMULATED_TRANSCRIPT ! 2 @ ''\<newline>\<newline>''] \<and>
   transcriptIndex (exec example_js
      [ClickStartSession ''k3j9x0q2a'', WsOpen, ClickRecord, Wait 9000, ClickRecord, ClickRecord,
       Wait 4000] initial) = 3 \<and>
   simulation_started @ SIMULATED_TRANSCRIPT ! 2 @ ''\<newline>\<newline>'' \<noteq>
     simulation_started @ SIMULATED_TRANSCRIPT ! 0 @ ''\<newline>\<newline>'' @ SIMULATED_TRANSCRIPT ! 1 @ ''\<newline>\<newline>'' @
       SIMULATED_TRANSCRIPT ! 2 @ ''\<newline>\<newline>''"
proof -
  obtain m1 m2 m3 m4 m5 m6 m7 m8 m9 where N: "HARDCODED_NUDGES =
    [(5000, m1), (6000, m2), (13000, m3), (17000, m4), (21000, m5), (25000, m6), (29000, m7),
     (33000, m8), (37000, m9)]"
    using nudge_shape by blast
  obtain c1 c2 c3 c4 c5 c6 c7 c8 c9 where T: "SIMULATED_TRANSCRIPT = [c1, c2, c3, c4, c5, c6, c7, c8, c9]"
    using transcript_shape by blast
  note defs = N T exec_def initial_def handleStartSession_def default_job_description_not_blank
      left_sockets_def startRecording_def SIMULATION_INTERVAL_def advance.simps min_delay_def
      elapse_def fire_due_def tick_def stopRecording_def Let_def
  have "length (simulation_started @ SIMULATED_TRANSCRIPT ! 2 @ ''\<newline>\<newline>'') \<noteq>
        length (simulation_started @ SIMULATED_TRANSCRIPT ! 0 @ ''\<newline>\<newline>'' @
          SIMULATED_TRANSCRIPT ! 1 @ ''\<newline>\<newline>'' @ SIMULATED_TRANSCRIPT ! 2 @ ''\<newline>\<newline>'')"
    by simp
  then have ne: "simulation_started @ SIMULATED_TRANSCRIPT ! 2 @ ''\<newline>\<newline>'' \<noteq>
     simulation_started @ SIMULATED_TRANSCRIPT ! 0 @ ''\<newline>\<newline>'' @ SIMULATED_TRANSCRIPT ! 1 @ ''\<newline>\<newline>'' @
       SIMULATED_TRANSCRIPT ! 2 @ ''\<newline>\<newline>''"
    by metis
  have "map snd (sent (exec example_js
      [ClickStartSession ''k3j9x0q2a'', WsOpen, ClickRecord, Wait 9000, ClickRecord, ClickRecord,
       Wait 4000] initial)) =
     [simulation_started @ SIMULATED_TRANSCRIPT ! 0 @ ''\<newline>\<newline>'',
      simulation_started @ SIMULATED_TRANSCRIPT ! 0 @ ''\<newline>\<newline>'' @ SIMULATED_TRANSCRIPT ! 1 @ ''\<newline>\<newline>'',
      simulation_started @ SIMULATED_TRANSCRIPT ! 2 @ ''\<newline>\<newline>'']"
    and "transcriptIndex (exec example_js
      [ClickStartSession ''k3j9x0q2a'', WsOpen, ClickRecord, Wait 9000, ClickRecord, ClickRecord,
       Wait 4000] initial) = 3"
    by (simp_all add: defs)
  with ne show ?thesis by simp
qed

subsection \<open>Reachable states\<close>





subsection \<open>A recording, millisecond by millisecond\<close>

lemma minimum_Some: "minimum ds = Some m \<Longrightarrow> m \<in> set ds \<and> (\<forall>x \<in> set ds. m \<le> x)"
proof (induction ds arbitrary: m)
  case Nil
  then show ?case by simp
next
  case (Cons x xs)
  show ?case
  proof (cases "minimum xs")
    case None
    then have "xs = []" by (cases xs) (auto split: option.splits)
    with Cons.prems None show ?thesis by simp
  next
    case (Some k)
    with Cons.IH have "k \<in> set xs" and "\<forall>y \<in> set xs. k \<le> y" by auto
    with Cons.prems Some show ?thesis by (auto simp: min_def split: if_splits)
  qed
qed

















subsection \<open>The demo is a script\<close>










subsection \<open>The socket of a session\<close>

lemma session_inv_tick: "session_inv u os fs0 s \<Longrightarrow> session_inv u os fs0 (tick s)"
  by (auto simp: session_inv_def tick_def stopRecording_def Let_def)

lemma session_inv_fire_due:
  assumes "session_inv u os fs0 s"
  shows "session_inv u os fs0 (fire_due s)"
proof (cases "take_due (nudgeTimers s)")
  case None
  from assms have "session_inv u os fs0 (s\<lparr>simulationTimer := Some SIMULATION_INTERVAL\<rparr>)"
    by (simp add: session_inv_def)
  from session_inv_tick [OF this] None assms show ?thesis by (simp add: fire_due_def)
next
  case (Some r)
  with assms show ?thesis by (cases r) (simp add: fire_due_def session_inv_def)
qed

lemma session_inv_elapse: "session_inv u os fs0 s \<Longrightarrow> session_inv u os fs0 (elapse d s)"
  by (simp add: session_inv_def elapse_def)

lemma session_inv_advance: "session_inv u os fs0 s \<Longrightarrow> session_inv u os fs0 (advance n s)"
proof (induction n s rule: advance.induct)
  case (1 n s)
  show ?case
  proof (cases "min_delay s")
    case None
    with "1.prems" show ?thesis by (simp add: advance_idle)
  next
    case (Some d)
    show ?thesis
    proof (cases "d \<le> n")
      case True
      from "1.prems" have "session_inv u os fs0 (fire_due (elapse d s))"
        by (intro session_inv_fire_due session_inv_elapse)
      from "1.IH" [OF Some True this] show ?thesis by (simp add: advance_fire [OF Some True])
    next
      case False
      with "1.prems" show ?thesis by (simp add: advance_rest [OF Some False] session_inv_elapse)
    qed
  qed
qed

lemma session_inv_event:
  assumes "session_inv u os fs0 s" and "e \<noteq> ClickEndSession"
  shows "session_inv u os fs0 (apply_event js e s)"
proof (cases e)
  case (Wait n)
  with assms show ?thesis by (simp add: session_inv_advance)
next
  case (WsMessage d)
  with assms show ?thesis
    by (auto simp: session_inv_def deliver_frame split: option.splits)
qed (use assms in \<open>auto simp: session_inv_def startRecording_def
       stopRecording_def ws_onerror_def deliver_frame split: option.splits\<close>)

lemma session_inv_exec:
  "session_inv u os fs0 s \<Longrightarrow> ClickEndSession \<notin> set evs \<Longrightarrow> session_inv u os fs0 (exec js evs s)"
  unfolding exec_def
proof (induction evs arbitrary: s)
  case Nil
  then show ?case by simp
next
  case (Cons e evs)
  from Cons.prems have ne: "e \<noteq> ClickEndSession" and ev: "ClickEndSession \<notin> set evs" by auto
  from Cons.IH [OF session_inv_event [OF Cons.prems(1) ne] ev] show ?case by simp
qed


lemma shut_nth: "list_all shut xs \<Longrightarrow> i < length xs \<Longrightarrow> shut (xs ! i)"
  by (simp add: list_all_length)

lemma shut_update: "list_all shut xs \<Longrightarrow> shut w \<Longrightarrow> list_all shut (xs[i := w])"
  by (auto simp: list_all_iff dest: set_update_subset_insert [THEN subsetD])

lemma shut_event:
  assumes "list_all shut (others s)"
  shows "apply_event js (OtherWsOpen i) s = s"
    and "others (apply_event js (OtherWsClose i) s) = others s \<or>
         others (apply_event js (OtherWsClose i) s) = (others s)[i := (others s ! i)\<lparr>readyState := CLOSED\<rparr>]"
    and "apply_event js (OtherWsMessage i d) s = s"
  using shut_nth [OF assms, of i] by (auto simp: shut_def deliver_def)

lemma receiving_inv_event:
  assumes "receiving_inv u ms0 s" and "e \<noteq> ClickEndSession"
  shows "receiving_inv u ms0 (apply_event js e s)"
proof (cases e)
  case (Wait n)
  with assms show ?thesis by (simp add: receiving_inv_def advance_frame)
next
  case (WsMessage d)
  with assms show ?thesis
    by (auto simp: receiving_inv_def deliver_def handleNudge_frame)
next
  case (OtherWsOpen i)
  from assms have "list_all shut (others s)" by (simp add: receiving_inv_def)
  from shut_event(1) [OF this] OtherWsOpen assms show ?thesis by simp
next
  case (OtherWsMessage i d)
  from assms have "list_all shut (others s)" by (simp add: receiving_inv_def)
  from shut_event(3) [OF this] OtherWsMessage assms show ?thesis by simp
next
  case (OtherWsClose i)
  from assms have sh: "list_all shut (others s)" by (simp add: receiving_inv_def)
  have "shut ((others s ! i)\<lparr>readyState := CLOSED\<rparr>)" by (simp add: shut_def)
  from shut_update [OF sh this] OtherWsClose assms show ?thesis
    by (auto simp: receiving_inv_def)
qed (use assms in \<open>auto simp: receiving_inv_def startRecording_def
       stopRecording_def ws_onerror_def split: option.splits\<close>)

lemma receiving_inv_exec:
  "receiving_inv u ms0 s \<Longrightarrow> ClickEndSession \<notin> set evs \<Longrightarrow> receiving_inv u ms0 (exec js evs s)"
  unfolding exec_def
proof (induction evs arbitrary: s)
  case Nil
  then show ?case by simp
next
  case (Cons e evs)
  from Cons.prems have ne: "e \<noteq> ClickEndSession" and ev: "ClickEndSession \<notin> set evs" by auto
  from Cons.IH [OF receiving_inv_event [OF Cons.prems(1) ne] ev] show ?case by simp
qed

lemma sockets_inv_event:
  assumes "sockets_inv s"
  shows "sockets_inv (apply_event js e s)"
proof (cases e)
  case (Wait n)
  with assms show ?thesis by (simp add: sockets_inv_def advance_frame)
next
  case (OtherWsOpen i)
  from assms have "list_all shut (others s)" by (simp add: sockets_inv_def)
  from shut_event(1) [OF this] OtherWsOpen assms show ?thesis by simp
next
  case (OtherWsMessage i d)
  from assms have "list_all shut (others s)" by (simp add: sockets_inv_def)
  from shut_event(3) [OF this] OtherWsMessage assms show ?thesis by simp
next
  case (OtherWsClose i)
  from assms have sh: "list_all shut (others s)" by (simp add: sockets_inv_def)
  have "shut ((others s ! i)\<lparr>readyState := CLOSED\<rparr>)" by (simp add: shut_def)
  from shut_update [OF sh this] OtherWsClose assms show ?thesis
    by (auto simp: sockets_inv_def)
next
  case ClickEndSession
  with assms show ?thesis
    by (auto simp: sockets_inv_def handleEndSession_def close_ws_def stopRecording_def
          left_sockets_def shut_def Let_def split: option.splits)
next
  case (ClickStartSession rnd)
  with assms show ?thesis
    by (auto simp: sockets_inv_def handleStartSession_def left_sockets_def Let_def)
qed (use assms in \<open>auto simp: sockets_inv_def startRecording_def
       stopRecording_def ws_onerror_def deliver_frame split: option.splits\<close>)

lemma reachable_sockets: "sockets_inv (exec js evs initial)"
proof -
  have "sockets_inv s \<Longrightarrow> sockets_inv (foldl (\<lambda>s e. apply_event js e s) s evs)" for s
    by (induction evs arbitrary: s) (auto simp: sockets_inv_event)
  moreover have "sockets_inv initial" by (simp add: sockets_inv_def initial_def)
  ultimately show ?thesis by (simp add: exec_def)
qed

lemma blank_job_description:
  "trim (liveJobDescription s) = [] \<Longrightarrow>
   opened (handleStartSession rnd s) = opened s \<and> ws (handleStartSession rnd s) = ws s \<and>
   isInterviewing (handleStartSession rnd s) = isInterviewing s \<and>
   alerts (handleStartSession rnd s) =
     alerts s @ [''Please enter a job description to provide context for the AI.'']"
  by (simp add: handleStartSession_def)

text \<open>
  Claim C7. \<open>handleStartSession\<close>, when the job description is not blank, constructs one
  socket, whose address is the server's followed by \<^verbatim>\<open>/ws/interview/\<close> and the session
  id, \<^verbatim>\<open>session_demo_\<close> and the random text. Until the session is ended no other socket
  is constructed, the socket in use is that one, and every frame sent goes to it. A message
  that arrives on it while it is open is recorded as received from it and handed to
  \<open>handleNudge\<close>. When the session starts with no socket in the reference and the sockets of
  earlier sessions shut, every message received until the session is ended arrived on the
  socket of the session; that is the case whenever the session starts from a state reached
  from the initial one, since there a session is under way or the reference is empty and
  the earlier sockets are shut.
\<close>

theorem session_socket:
  assumes "trim (liveJobDescription s) \<noteq> []"
    and "ClickEndSession \<notin> set evs"
    and "u = ''ws://127.0.0.1:8000'' @ ''/ws/interview/'' @ ''session_demo_'' @ rnd"
  shows "ws (handleStartSession rnd s) = Some \<lparr>url = u, readyState = CONNECTING\<rparr> \<and>
         opened (handleStartSession rnd s) = opened s @ [u] \<and>
         opened (exec js evs (handleStartSession rnd s)) = opened s @ [u] \<and>
         (\<exists>w. ws (exec js evs (handleStartSession rnd s)) = Some w \<and> url w = u) \<and>
         (\<exists>fs. sent (exec js evs (handleStartSession rnd s)) = sent s @ fs \<and>
               list_all (\<lambda>f. fst f = u) fs) \<and>
         (ws (exec js evs (handleStartSession rnd s)) = Some w \<and> readyState w = OPEN \<longrightarrow>
            received (apply_event js (WsMessage d) (exec js evs (handleStartSession rnd s))) =
              received (exec js evs (handleStartSession rnd s)) @ [(u, d)] \<and>
            nudges (apply_event js (WsMessage d) (exec js evs (handleStartSession rnd s))) =
              nudges (handleNudge js d (exec js evs (handleStartSession rnd s)))) \<and>
         (ws s = None \<and> list_all shut (others s) \<longrightarrow>
            (\<exists>ms. received (exec js evs (handleStartSession rnd s)) = received s @ ms \<and>
                  list_all (\<lambda>m. fst m = u) ms)) \<and>
         (\<not> isInterviewing (exec js evs0 initial) \<longrightarrow>
            ws (exec js evs0 initial) = None \<and> list_all shut (others (exec js evs0 initial)))"
proof -
  let ?t = "exec js evs (handleStartSession rnd s)"
  have a: "ws (handleStartSession rnd s) = Some \<lparr>url = u, readyState = CONNECTING\<rparr> \<and>
           opened (handleStartSession rnd s) = opened s @ [u]"
    using assms(1,3) by (simp add: handleStartSession_def Let_def)
  have "session_inv u (opened s @ [u]) (sent s) (handleStartSession rnd s)"
    using assms(1,3) by (simp add: session_inv_def handleStartSession_def Let_def)
  from session_inv_exec [OF this assms(2), of js]
  have b: "opened ?t = opened s @ [u]" "\<exists>w. ws ?t = Some w \<and> url w = u"
    "\<exists>fs. sent ?t = sent s @ fs \<and> list_all (\<lambda>f. fst f = u) fs"
    by (simp_all add: session_inv_def)
  have c: "ws ?t = Some w \<and> readyState w = OPEN \<longrightarrow>
            received (apply_event js (WsMessage d) ?t) = received ?t @ [(u, d)] \<and>
            nudges (apply_event js (WsMessage d) ?t) = nudges (handleNudge js d ?t)"
    using b(2) by (auto simp: deliver_def)
  have e: "ws s = None \<and> list_all shut (others s) \<longrightarrow>
            (\<exists>ms. received ?t = received s @ ms \<and> list_all (\<lambda>m. fst m = u) ms)"
  proof
    assume h: "ws s = None \<and> list_all shut (others s)"
    with assms(1,3) have "receiving_inv u (received s) (handleStartSession rnd s)"
      by (simp add: receiving_inv_def handleStartSession_def left_sockets_def Let_def)
    from receiving_inv_exec [OF this assms(2), of js]
    show "\<exists>ms. received ?t = received s @ ms \<and> list_all (\<lambda>m. fst m = u) ms"
      by (simp add: receiving_inv_def)
  qed
  have f: "\<not> isInterviewing (exec js evs0 initial) \<longrightarrow>
            ws (exec js evs0 initial) = None \<and> list_all shut (others (exec js evs0 initial))"
    using reachable_sockets [of js evs0] by (auto simp: sockets_inv_def)
  from a b c e f show ?thesis by simp
qed

theorem session_socket_witness:
  "trim (liveJobDescription (exec example_js [ClickStartSession ''aaaaaaaaa'', WsOpen, ClickEndSession] initial)) \<noteq> [] \<and>
   ClickEndSession \<notin> set [WsOpen, OtherWsMessage 0 ''{}'', ClickRecord, Wait 8000] \<and>
   ws (exec example_js [ClickStartSession ''aaaaaaaaa'', WsOpen, ClickEndSession] initial) = None \<and>
   others (exec example_js [ClickStartSession ''aaaaaaaaa'', WsOpen, ClickEndSession] initial) =
     [\<lparr>url = ''ws://127.0.0.1:8000/ws/interview/session_demo_aaaaaaaaa'', readyState = CLOSING\<rparr>] \<and>
   list_all shut (others (exec example_js [ClickStartSession ''aaaaaaaaa'', WsOpen, ClickEndSession] initial)) \<and>
   \<not> isInterviewing (exec example_js [ClickStartSession ''aaaaaaaaa'', WsOpen, ClickEndSession] initial) \<and>
   ws (exec example_js [WsOpen, OtherWsMessage 0 ''{}'', ClickRecord, Wait 8000]
        (handleStartSession ''k3j9x0q2a''
          (exec example_js [ClickStartSession ''aaaaaaaaa'', WsOpen, ClickEndSession] initial))) =
     Some \<lparr>url = ''ws://127.0.0.1:8000/ws/interview/session_demo_k3j9x0q2a'', readyState = OPEN\<rparr> \<and>
   opened (exec example_js [WsOpen, OtherWsMessage 0 ''{}'', ClickRecord, Wait 8000]
        (handleStartSession ''k3j9x0q2a''
          (exec example_js [ClickStartSession ''aaaaaaaaa'', WsOpen, ClickEndSession] initial))) =
     [''ws://127.0.0.1:8000/ws/interview/session_demo_aaaaaaaaa'',
      ''ws://127.0.0.1:8000/ws/interview/session_demo_k3j9x0q2a''] \<and>
   map fst (sent (exec example_js [WsOpen, OtherWsMessage 0 ''{}'', ClickRecord, Wait 8000]
        (handleStartSession ''k3j9x0q2a''
          (exec example_js [ClickStartSession ''aaaaaaaaa'', WsOpen, ClickEndSession] initial)))) =
     [''ws://127.0.0.1:8000/ws/interview/session_demo_k3j9x0q2a'',
      ''ws://127.0.0.1:8000/ws/interview/session_demo_k3j9x0q2a''] \<and>
   received (apply_event example_js
        (WsMessage ''{\"event_type\": \"bias_alert\", \"message\": \"Stay on topic\"}'')
        (exec example_js [WsOpen, OtherWsMessage 0 ''{}'', ClickRecord, Wait 8000]
          (handleStartSession ''k3j9x0q2a''
            (exec example_js [ClickStartSession ''aaaaaaaaa'', WsOpen, ClickEndSession] initial)))) =
     [(''ws://127.0.0.1:8000/ws/interview/session_demo_k3j9x0q2a'',
       ''{\"event_type\": \"bias_alert\", \"message\": \"Stay on topic\"}'')]"
proof -
  obtain m1 m2 m3 m4 m5 m6 m7 m8 m9 where N: "HARDCODED_NUDGES =
    [(5000, m1), (6000, m2), (13000, m3), (17000, m4), (21000, m5), (25000, m6), (29000, m7),
     (33000, m8), (37000, m9)]"
    using nudge_shape by blast
  obtain c1 c2 c3 c4 c5 c6 c7 c8 c9 where T: "SIMULATED_TRANSCRIPT = [c1, c2, c3, c4, c5, c6, c7, c8, c9]"
    using transcript_shape by blast
  let ?s = "exec example_js [ClickStartSession ''aaaaaaaaa'', WsOpen, ClickEndSession] initial"
  let ?evs = "[WsOpen, OtherWsMessage 0 ''{}'', ClickRecord, Wait 8000]"
  let ?t = "exec example_js ?evs (handleStartSession ''k3j9x0q2a'' ?s)"
  let ?w = "\<lparr>url = ''ws://127.0.0.1:8000/ws/interview/session_demo_k3j9x0q2a'', readyState = OPEN\<rparr>"
  note defs = N T exec_def initial_def handleStartSession_def handleEndSession_def close_ws_def
      default_job_description_not_blank left_sockets_def deliver_def shut_def
      startRecording_def SIMULATION_INTERVAL_def advance.simps min_delay_def
      elapse_def fire_due_def tick_def stopRecording_def Let_def
  have s: "liveJobDescription ?s = default_job_description" "ws ?s = None"
    "others ?s = [\<lparr>url = ''ws://127.0.0.1:8000/ws/interview/session_demo_aaaaaaaaa'', readyState = CLOSING\<rparr>]"
    "\<not> isInterviewing ?s" "received ?s = []" "sent ?s = []"
    "opened ?s = [''ws://127.0.0.1:8000/ws/interview/session_demo_aaaaaaaaa'']"
    by (simp_all add: defs)
  have h1: "trim (liveJobDescription ?s) \<noteq> []" by (simp add: s default_job_description_not_blank)
  have h2: "ClickEndSession \<notin> set ?evs" by simp
  have h3: "list_all shut (others ?s)" by (simp add: s shut_def)
  have t: "ws ?t = Some ?w" "received ?t = []"
    "map fst (sent ?t) = [''ws://127.0.0.1:8000/ws/interview/session_demo_k3j9x0q2a'',
      ''ws://127.0.0.1:8000/ws/interview/session_demo_k3j9x0q2a'']"
    by (simp_all add: defs)
  from session_socket [OF h1 h2 refl, of "''k3j9x0q2a''" example_js ?w
         "''{\"event_type\": \"bias_alert\", \"message\": \"Stay on topic\"}''"
         "[ClickStartSession ''aaaaaaaaa'', WsOpen, ClickEndSession]"]
       h1 h2 h3 s t
  show ?thesis by simp
qed

subsection \<open>Incoming events\<close>




subsection \<open>Stopping the recording\<close>

text \<open>
  Claim C10. After \<open>stopRecording\<close> the interval and every pending nudge timeout are
  cleared: however much time passes, no timer fires and the state stays as it is, and as
  long as the record button is not clicked again no timer is pending and the transcript
  gets no chunk (it is what it was, or emptied by a new session). A second \<open>stopRecording\<close>
  changes nothing. The cleanup at unmount clears the timers in the same way and closes the
  socket, if there is one.
\<close>

theorem stopRecording_cancels_timers:
  "simulationTimer (stopRecording s) = None \<and> nudgeTimers (stopRecording s) = [] \<and>
   \<not> isRecording (stopRecording s) \<and>
   advance n (stopRecording s) = stopRecording s \<and>
   stopRecording (stopRecording s) = stopRecording s \<and>
   (ClickRecord \<notin> set evs \<longrightarrow>
      min_delay (exec js evs (stopRecording s)) = None \<and>
      transcript (exec js evs (stopRecording s)) \<in> {transcript s, []}) \<and>
   simulationTimer (cleanup s) = None \<and> nudgeTimers (cleanup s) = [] \<and>
   advance n (cleanup s) = cleanup s \<and>
   (case ws s of
      None \<Rightarrow> ws (cleanup s) = None \<and> closed (cleanup s) = closed s
    | Some w \<Rightarrow>
        ws (cleanup s) = Some (w\<lparr>readyState := (if readyState w = CLOSED then CLOSED else CLOSING)\<rparr>) \<and>
        closed (cleanup s) = closed s @ [url w])"
proof -
  have a: "no_timers (stopRecording s)" by (rule no_timers_stopRecording)
  have b: "no_timers (cleanup s)"
    by (simp add: no_timers_def cleanup_def close_ws_def stopRecording_def split: option.splits)
  have c: "ClickRecord \<notin> set evs \<longrightarrow>
      min_delay (exec js evs (stopRecording s)) = None \<and>
      transcript (exec js evs (stopRecording s)) \<in> {transcript s, []}"
  proof
    assume h: "ClickRecord \<notin> set evs"
    from exec_no_timers [OF a h] have "min_delay (exec js evs (stopRecording s)) = None"
      by (simp add: no_timers_def min_delay_def)
    moreover from exec_transcript_idle [OF a h, of js]
    have "transcript (exec js evs (stopRecording s)) \<in> {transcript s, []}"
      by (auto simp: stopRecording_def)
    ultimately show "min_delay (exec js evs (stopRecording s)) = None \<and>
      transcript (exec js evs (stopRecording s)) \<in> {transcript s, []}" by simp
  qed
  have d: "stopRecording (stopRecording s) = stopRecording s" by (simp add: stopRecording_def)
  have e: "(case ws s of
      None \<Rightarrow> ws (cleanup s) = None \<and> closed (cleanup s) = closed s
    | Some w \<Rightarrow>
        ws (cleanup s) = Some (w\<lparr>readyState := (if readyState w = CLOSED then CLOSED else CLOSING)\<rparr>) \<and>
        closed (cleanup s) = closed s @ [url w])"
    by (simp add: cleanup_def close_ws_def stopRecording_def split: option.splits)
  from a b c d e advance_no_timers [OF a] advance_no_timers [OF b] show ?thesis
    by (simp add: no_timers_def stopRecording_def)
qed

theorem stopRecording_cancels_timers_witness:
  "ClickRecord \<notin> set [Wait 60000, WsMessage ''x'', ClickEndSession] \<and>
   length (nudgeTimers (startRecording initial)) = 9 \<and>
   simulationTimer (startRecording initial) = Some 4000 \<and>
   min_delay (exec example_js [Wait 60000, WsMessage ''x'', ClickEndSession]
     (stopRecording (startRecording initial))) = None \<and>
   advance 60000 (stopRecording (startRecording initial)) = stopRecording (startRecording initial)"
proof -
  have a: "ClickRecord \<notin> set [Wait 60000, WsMessage ''x'', ClickEndSession]" by simp
  have b: "length (nudgeTimers (startRecording initial)) = 9 \<and>
           simulationTimer (startRecording initial) = Some 4000"
    by (simp add: startRecording_def initial_def HARDCODED_NUDGES_def SIMULATION_INTERVAL_def)
  from a b stopRecording_cancels_timers [of "startRecording initial" 60000
      "[Wait 60000, WsMessage ''x'', ClickEndSession]" example_js]
  show ?thesis by simp
qed


section \<open>Properties of the hiring page and the briefing\<close>

subsection \<open>Selecting resumes\<close>

text \<open>
  Claim C3. When a selection holds a file whose name, in lower case, does not end in
  \<^verbatim>\<open>.pdf\<close>, \<open>handleResumeSelection\<close> sets the error to ``Only PDF files are supported.''
  and changes nothing else: no file is added and no request is issued. For such a file
  \<open>parseResumeFile\<close> throws an error with the same message and issues no request.
\<close>

theorem non_pdf_rejected:
  "(list_ex (\<lambda>f. \<not> endsWith (toLowerCase (name f)) ''.pdf'') newFiles \<longrightarrow>
      handleResumeSelection newFiles s = s\<lparr>error := ''Only PDF files are supported.''\<rparr> \<and>
      error (handleResumeSelection newFiles s) = ''Only PDF files are supported.'' \<and>
      resumeFiles (handleResumeSelection newFiles s) = resumeFiles s \<and>
      requests (handleResumeSelection newFiles s) = requests s) \<and>
   (\<not> endsWith (toLowerCase (name f)) ''.pdf'' \<longrightarrow>
      parseResumeFile fetch f = (Inl (JsError ''Error'' ''Only PDF files are supported.''), []))"
  by (simp add: handleResumeSelection_def parseResumeFile_def)

theorem non_pdf_rejected_witness:
  "list_ex (\<lambda>f. \<not> endsWith (toLowerCase (name f)) ''.pdf'')
     [\<lparr>name = ''cv.pdf'', content = ''%PDF''\<rparr>, \<lparr>name = ''notes.DOCX'', content = ''PK''\<rparr>] \<and>
   error (handleResumeSelection
     [\<lparr>name = ''cv.pdf'', content = ''%PDF''\<rparr>, \<lparr>name = ''notes.DOCX'', content = ''PK''\<rparr>] blank_home) =
     ''Only PDF files are supported.'' \<and>
   resumeFiles (handleResumeSelection
     [\<lparr>name = ''cv.pdf'', content = ''%PDF''\<rparr>, \<lparr>name = ''notes.DOCX'', content = ''PK''\<rparr>] blank_home) = [] \<and>
   parseResumeFile (\<lambda>r. Rejected NonError) \<lparr>name = ''notes.DOCX'', content = ''PK''\<rparr> =
     (Inl (JsError ''Error'' ''Only PDF files are supported.''), [])"
proof -
  let ?fs = "[\<lparr>name = ''cv.pdf'', content = ''%PDF''\<rparr>, \<lparr>name = ''notes.DOCX'', content = ''PK''\<rparr>]"
  let ?f = "\<lparr>name = ''notes.DOCX'', content = ''PK''\<rparr>"
  have a: "\<not> endsWith (toLowerCase (name ?f)) ''.pdf''"
    by (simp add: endsWith_def toLowerCase_def toLowerChar_def lower_letters_def upper_letters_def)
  then have b: "list_ex (\<lambda>f. \<not> endsWith (toLowerCase (name f)) ''.pdf'') ?fs" by simp
  have c: "resumeFiles blank_home = []" by (simp add: blank_home_def)
  from non_pdf_rejected [of ?fs blank_home ?f "\<lambda>r. Rejected NonError"] a b c show ?thesis by simp
qed

lemma list_ex_name: "list_ex (\<lambda>existingFile. name existingFile = name newFile) fs \<longleftrightarrow> name newFile \<in> name ` set fs"
  by (simp add: list_ex_iff image_iff) metis

lemma distinct_append_new:
  assumes "distinct (map name old)" and "distinct (map name new)"
  shows "distinct (map name (old @ filter (\<lambda>f. name f \<notin> name ` set old) new))"
proof -
  have "distinct (map name (filter (\<lambda>f. name f \<notin> name ` set old) new))"
    using assms(2) by (simp add: distinct_map_filter)
  moreover have "set (map name old) \<inter> set (map name (filter (\<lambda>f. name f \<notin> name ` set old) new)) = {}"
    by (simp add: disjoint_iff image_iff) blast
  ultimately show ?thesis using assms(1) by (simp only: map_append distinct_append)
qed

text \<open>
  Claim C4, as amended. For a selection of PDF files, the files added are the selected
  files whose name no file of \<open>resumeFiles\<close> has, in their order, after the files already
  there. The error names the duplicates only when every selected file is a duplicate;
  when some file is added the error is cleared. If the names in \<open>resumeFiles\<close> are pairwise
  distinct and so are the names in the selection, the names are pairwise distinct
  afterwards.
\<close>

theorem duplicates_not_added:
  "(\<not> list_ex (\<lambda>f. \<not> endsWith (toLowerCase (name f)) ''.pdf'') newFiles \<longrightarrow>
      resumeFiles (handleResumeSelection newFiles s) =
        resumeFiles s @ filter (\<lambda>f. name f \<notin> name ` set (resumeFiles s)) newFiles \<and>
      error (handleResumeSelection newFiles s) =
        (if filter (\<lambda>f. name f \<in> name ` set (resumeFiles s)) newFiles \<noteq> [] \<and>
            filter (\<lambda>f. name f \<notin> name ` set (resumeFiles s)) newFiles = []
         then ''Duplicate files detected: ''
                @ join '', '' (map name (filter (\<lambda>f. name f \<in> name ` set (resumeFiles s)) newFiles))
                @ ''. These files were not added again.''
         else [])) \<and>
   (distinct (map name (resumeFiles s)) \<and> distinct (map name newFiles) \<longrightarrow>
      distinct (map name (resumeFiles (handleResumeSelection newFiles s))))"
proof -
  let ?old = "resumeFiles s"
  let ?dup = "filter (\<lambda>f. name f \<in> name ` set ?old) newFiles"
  let ?new = "filter (\<lambda>f. name f \<notin> name ` set ?old) newFiles"
  have nodup: "?dup = [] \<Longrightarrow> ?new = newFiles"
    by (auto simp: filter_empty_conv filter_id_conv)
  have files: "resumeFiles (handleResumeSelection newFiles s) = ?old \<or>
               resumeFiles (handleResumeSelection newFiles s) = ?old @ ?new"
    using nodup by (auto simp: handleResumeSelection_def Let_def list_ex_name)
  have a: "\<not> list_ex (\<lambda>f. \<not> endsWith (toLowerCase (name f)) ''.pdf'') newFiles \<Longrightarrow>
      resumeFiles (handleResumeSelection newFiles s) = ?old @ ?new"
    using nodup by (auto simp: handleResumeSelection_def Let_def list_ex_name)
  have b: "\<not> list_ex (\<lambda>f. \<not> endsWith (toLowerCase (name f)) ''.pdf'') newFiles \<Longrightarrow>
      error (handleResumeSelection newFiles s) =
        (if ?dup \<noteq> [] \<and> ?new = []
         then ''Duplicate files detected: '' @ join '', '' (map name ?dup)
                @ ''. These files were not added again.''
         else [])"
    using nodup by (auto simp: handleResumeSelection_def Let_def list_ex_name)
  have c: "distinct (map name ?old) \<and> distinct (map name newFiles) \<longrightarrow>
      distinct (map name (resumeFiles (handleResumeSelection newFiles s)))"
    using files distinct_append_new [of ?old newFiles] by auto
  from a b c show ?thesis by blast
qed

text \<open>
  The claim as stated fails: with \<^verbatim>\<open>a.pdf\<close> present, selecting \<^verbatim>\<open>a.pdf\<close> and
  \<^verbatim>\<open>b.pdf\<close> leaves no error, and selecting two files named \<^verbatim>\<open>a.pdf\<close> at once into an
  empty list adds both.
\<close>

theorem duplicates_not_added_counterexample:
  "error (handleResumeSelection
      [\<lparr>name = ''a.pdf'', content = ''%PDF-1''\<rparr>, \<lparr>name = ''b.pdf'', content = ''%PDF-2''\<rparr>]
      (blank_home\<lparr>resumeFiles := [\<lparr>name = ''a.pdf'', content = ''%PDF-0''\<rparr>]\<rparr>)) = [] \<and>
   map name (resumeFiles (handleResumeSelection
      [\<lparr>name = ''a.pdf'', content = ''%PDF-1''\<rparr>, \<lparr>name = ''a.pdf'', content = ''%PDF-2''\<rparr>]
      blank_home)) = [''a.pdf'', ''a.pdf'']"
  by (simp add: handleResumeSelection_def blank_home_def Let_def endsWith_def toLowerCase_def
        toLowerChar_def lower_letters_def upper_letters_def)

theorem duplicates_not_added_witness:
  "resumeFiles (handleResumeSelection
      [\<lparr>name = ''a.pdf'', content = ''%PDF-1''\<rparr>, \<lparr>name = ''b.pdf'', content = ''%PDF-2''\<rparr>]
      (blank_home\<lparr>resumeFiles := [\<lparr>name = ''a.pdf'', content = ''%PDF-0''\<rparr>]\<rparr>)) =
     [\<lparr>name = ''a.pdf'', content = ''%PDF-0''\<rparr>, \<lparr>name = ''b.pdf'', content = ''%PDF-2''\<rparr>] \<and>
   error (handleResumeSelection [\<lparr>name = ''a.pdf'', content = ''%PDF-1''\<rparr>]
      (blank_home\<lparr>resumeFiles := [\<lparr>name = ''a.pdf'', content = ''%PDF-0''\<rparr>]\<rparr>)) =
     ''Duplicate files detected: a.pdf. These files were not added again.'' \<and>
   distinct (map name (resumeFiles (handleResumeSelection
      [\<lparr>name = ''a.pdf'', content = ''%PDF-1''\<rparr>, \<lparr>name = ''b.pdf'', content = ''%PDF-2''\<rparr>]
      (blank_home\<lparr>resumeFiles := [\<lparr>name = ''a.pdf'', content = ''%PDF-0''\<rparr>]\<rparr>))))"
proof -
  let ?a0 = "\<lparr>name = ''a.pdf'', content = ''%PDF-0''\<rparr>"
  let ?a1 = "\<lparr>name = ''a.pdf'', content = ''%PDF-1''\<rparr>"
  let ?b2 = "\<lparr>name = ''b.pdf'', content = ''%PDF-2''\<rparr>"
  let ?st = "blank_home\<lparr>resumeFiles := [?a0]\<rparr>"
  have pdf: "endsWith (toLowerCase ''a.pdf'') ''.pdf''" "endsWith (toLowerCase ''b.pdf'') ''.pdf''"
    by (simp_all add: endsWith_def toLowerCase_def toLowerChar_def lower_letters_def upper_letters_def)
  then have h1: "\<not> list_ex (\<lambda>f. \<not> endsWith (toLowerCase (name f)) ''.pdf'') [?a1, ?b2]"
    and h2: "\<not> list_ex (\<lambda>f. \<not> endsWith (toLowerCase (name f)) ''.pdf'') [?a1]" by simp_all
  have h3: "distinct (map name (resumeFiles ?st)) \<and> distinct (map name [?a1, ?b2])" by simp
  have st: "resumeFiles ?st = [?a0]" by simp
  from duplicates_not_added [of "[?a1, ?b2]" ?st] h1 h3 st
  have 1: "resumeFiles (handleResumeSelection [?a1, ?b2] ?st) = [?a0, ?b2] \<and>
           distinct (map name (resumeFiles (handleResumeSelection [?a1, ?b2] ?st)))"
    by simp
  from duplicates_not_added [of "[?a1]" ?st] h2 st
  have 2: "error (handleResumeSelection [?a1] ?st) =
     ''Duplicate files detected: a.pdf. These files were not added again.''" by simp
  from 1 2 show ?thesis by simp
qed

subsection \<open>Removing a resume\<close>

text \<open>
  Claim C9. \<open>handleRemoveResume\<close> keeps, in their order, the files whose name is not the
  one given, removes that key from \<open>parsedResumes\<close> and leaves every other key as it was,
  empties \<open>screeningResults\<close>, and leaves the rest of the state alone.
\<close>

theorem remove_resume_frame:
  "resumeFiles (handleRemoveResume fileName s) = filter (\<lambda>f. name f \<noteq> fileName) (resumeFiles s) \<and>
   set (resumeFiles (handleRemoveResume fileName s)) = {f \<in> set (resumeFiles s). name f \<noteq> fileName} \<and>
   parsedResumes (handleRemoveResume fileName s) fileName = None \<and>
   (\<forall>k. k \<noteq> fileName \<longrightarrow> parsedResumes (handleRemoveResume fileName s) k = parsedResumes s k) \<and>
   dom (parsedResumes (handleRemoveResume fileName s)) = dom (parsedResumes s) - {fileName} \<and>
   screeningResults (handleRemoveResume fileName s) = [] \<and>
   error (handleRemoveResume fileName s) = error s \<and>
   requests (handleRemoveResume fileName s) = requests s \<and>
   jobDescription (handleRemoveResume fileName s) = jobDescription s \<and>
   emailContent (handleRemoveResume fileName s) = emailContent s"
  by (auto simp: handleRemoveResume_def)

theorem remove_resume_frame_witness:
  "map name (resumeFiles (handleRemoveResume ''a.pdf''
      (blank_home\<lparr>resumeFiles := [\<lparr>name = ''a.pdf'', content = ''%PDF-0''\<rparr>, \<lparr>name = ''b.pdf'', content = ''%PDF-2''\<rparr>],
                   parsedResumes := [''a.pdf'' \<mapsto> \<lparr>raw_text = ''Ann'', other_keys = []\<rparr>,
                                     ''b.pdf'' \<mapsto> \<lparr>raw_text = ''Bob'', other_keys = []\<rparr>]\<rparr>))) = [''b.pdf''] \<and>
   parsedResumes (handleRemoveResume ''a.pdf''
      (blank_home\<lparr>resumeFiles := [\<lparr>name = ''a.pdf'', content = ''%PDF-0''\<rparr>, \<lparr>name = ''b.pdf'', content = ''%PDF-2''\<rparr>],
                   parsedResumes := [''a.pdf'' \<mapsto> \<lparr>raw_text = ''Ann'', other_keys = []\<rparr>,
                                     ''b.pdf'' \<mapsto> \<lparr>raw_text = ''Bob'', other_keys = []\<rparr>]\<rparr>)) ''b.pdf'' =
     Some \<lparr>raw_text = ''Bob'', other_keys = []\<rparr> \<and>
   parsedResumes (handleRemoveResume ''a.pdf''
      (blank_home\<lparr>resumeFiles := [\<lparr>name = ''a.pdf'', content = ''%PDF-0''\<rparr>, \<lparr>name = ''b.pdf'', content = ''%PDF-2''\<rparr>],
                   parsedResumes := [''a.pdf'' \<mapsto> \<lparr>raw_text = ''Ann'', other_keys = []\<rparr>,
                                     ''b.pdf'' \<mapsto> \<lparr>raw_text = ''Bob'', other_keys = []\<rparr>]\<rparr>)) ''a.pdf'' = None"
proof -
  let ?st = "blank_home\<lparr>resumeFiles := [\<lparr>name = ''a.pdf'', content = ''%PDF-0''\<rparr>, \<lparr>name = ''b.pdf'', content = ''%PDF-2''\<rparr>],
                   parsedResumes := [''a.pdf'' \<mapsto> \<lparr>raw_text = ''Ann'', other_keys = []\<rparr>,
                                     ''b.pdf'' \<mapsto> \<lparr>raw_text = ''Bob'', other_keys = []\<rparr>]\<rparr>"
  have ne: "''b.pdf'' \<noteq> ''a.pdf''" by simp
  from remove_resume_frame [of "''a.pdf''" ?st] ne show ?thesis by simp
qed

subsection \<open>Sending the email\<close>

text \<open>
  Claim C5. With an empty \<open>intervieweeEmail\<close>, \<open>handleSendEmail\<close> sets the error to
  ``Please enter the interviewee's email address.'' and nothing else: no request is
  issued, and \<open>emailSending\<close>, \<open>emailContent\<close> and the modal stay as they were.
\<close>

theorem email_required:
  "intervieweeEmail s = [] \<longrightarrow>
     handleSendEmail fetch s = s\<lparr>error := ''Please enter the interviewee's email address.''\<rparr> \<and>
     error (handleSendEmail fetch s) = ''Please enter the interviewee's email address.'' \<and>
     requests (handleSendEmail fetch s) = requests s \<and>
     emailSending (handleSendEmail fetch s) = emailSending s \<and>
     emailContent (handleSendEmail fetch s) = emailContent s \<and>
     isEmailModalOpen (handleSendEmail fetch s) = isEmailModalOpen s \<and>
     closeModalTimer (handleSendEmail fetch s) = closeModalTimer s"
  by (simp add: handleSendEmail_def)

theorem email_required_witness:
  "intervieweeEmail (blank_home\<lparr>isEmailModalOpen := True, emailContent := ''Dear Dennis''\<rparr>) = [] \<and>
   requests (handleSendEmail (\<lambda>r. Resolved \<lparr>status = 200, json_body = Inr (JObj [(''success'', JBool True)])\<rparr>)
     (blank_home\<lparr>isEmailModalOpen := True, emailContent := ''Dear Dennis''\<rparr>)) = [] \<and>
   error (handleSendEmail (\<lambda>r. Resolved \<lparr>status = 200, json_body = Inr (JObj [(''success'', JBool True)])\<rparr>)
     (blank_home\<lparr>isEmailModalOpen := True, emailContent := ''Dear Dennis''\<rparr>)) =
     ''Please enter the interviewee's email address.'' \<and>
   isEmailModalOpen (handleSendEmail (\<lambda>r. Resolved \<lparr>status = 200, json_body = Inr (JObj [(''success'', JBool True)])\<rparr>)
     (blank_home\<lparr>isEmailModalOpen := True, emailContent := ''Dear Dennis''\<rparr>))"
proof -
  let ?st = "blank_home\<lparr>isEmailModalOpen := True, emailContent := ''Dear Dennis''\<rparr>"
  have a: "intervieweeEmail ?st = []" and b: "requests ?st = []" and c: "isEmailModalOpen ?st"
    by (simp_all add: blank_home_def)
  from email_required [of ?st "\<lambda>r. Resolved \<lparr>status = 200, json_body = Inr (JObj [(''success'', JBool True)])\<rparr>"] a b c
  show ?thesis by simp
qed

subsection \<open>Error banners\<close>





















end
